theory Spec2Isabelle
  imports Main
begin

section \<open>Lexer (lexer.cpp)\<close>

subsection \<open>Tokens\<close>

text \<open>
  The token variant of namespace \<open>token_type\<close>. Alternatives whose name is already a
  constant of HOL, or the name of a runtime value or statement node below, carry the
  suffix \<open>_t\<close>.
\<close>

datatype token =
    Number_t int
  | Id string
  | String_t string
  | Char_t char
  | Class_t
  | Return_t
  | If_t
  | Else
  | Def
  | Newline
  | Print_t
  | Indent
  | Dedent
  | And_t
  | Or_t
  | Not_t
  | Eq
  | NotEq
  | LessOrEq
  | GreaterOrEq
  | None_t
  | True_t
  | False_t
  | Eof

subsection \<open>Input streams\<close>

text \<open>
  A \<open>std::istream\<close> over a character buffer: the characters not yet read and the two
  state bits the lexer can observe. The operations below are the members of
  \<open>std::istream\<close> that lexer.cpp calls, with the behaviour the C++ standard gives them:
  an operation on a stream that is not \<open>good()\<close> extracts nothing and sets
  \<open>failbit\<close>; reaching the end of the buffer sets \<open>eofbit\<close>.
\<close>

record stream =
  data :: string
  eofbit :: bool
  failbit :: bool

definition istringstream :: "string \<Rightarrow> stream" where
  "istringstream s = \<lparr>data = s, eofbit = False, failbit = False\<rparr>"

definition good :: "stream \<Rightarrow> bool" where
  "good s = (\<not> eofbit s \<and> \<not> failbit s)"

text \<open>\<open>get(c)\<close>: the next character, or failure; on failure \<open>c\<close> keeps its value.\<close>

definition get :: "stream \<Rightarrow> char option \<times> stream" where
  "get s =
     (if good s then
        (case data s of
           [] \<Rightarrow> (None, s\<lparr>eofbit := True, failbit := True\<rparr>)
         | c # cs \<Rightarrow> (Some c, s\<lparr>data := cs\<rparr>))
      else (None, s\<lparr>failbit := True\<rparr>))"

text \<open>\<open>putback(c)\<close> clears \<open>eofbit\<close> and then, on a stream that has not failed,
  makes \<open>c\<close> the next character again.\<close>

definition putback :: "char \<Rightarrow> stream \<Rightarrow> stream" where
  "putback c s =
     (if failbit s then s\<lparr>eofbit := False\<rparr>
      else s\<lparr>data := c # data s, eofbit := False\<rparr>)"

text \<open>\<open>peek()\<close>: the next character without extracting it, or end-of-file.\<close>

definition peek :: "stream \<Rightarrow> char option \<times> stream" where
  "peek s =
     (if good s then
        (case data s of
           [] \<Rightarrow> (None, s\<lparr>eofbit := True\<rparr>)
         | c # cs \<Rightarrow> (Some c, s))
      else (None, s\<lparr>failbit := True\<rparr>))"

text \<open>\<open>ignore(numeric_limits<streamsize>::max(), '\n')\<close>: discard up to and including
  the next newline.\<close>

definition ignore_line :: "stream \<Rightarrow> stream" where
  "ignore_line s =
     (if good s then
        (case dropWhile (\<lambda>c. c \<noteq> CHR 0x0A) (data s) of
           [] \<Rightarrow> s\<lparr>data := [], eofbit := True\<rparr>
         | c # cs \<Rightarrow> s\<lparr>data := cs\<rparr>)
      else s\<lparr>failbit := True\<rparr>)"

text \<open>\<open>getline(input, line)\<close>: the characters before the next newline, which is
  extracted and dropped. At the end of the buffer \<open>eofbit\<close> is set, and \<open>failbit\<close>
  too when nothing at all could be extracted. The result is \<open>None\<close> when the stream
  converts to \<open>false\<close> afterwards.\<close>

definition getline :: "stream \<Rightarrow> string option \<times> stream" where
  "getline s =
     (if good s then
        (case dropWhile (\<lambda>c. c \<noteq> CHR 0x0A) (data s) of
           [] \<Rightarrow>
             if data s = [] then (None, s\<lparr>eofbit := True, failbit := True\<rparr>)
             else (Some (data s), s\<lparr>data := [], eofbit := True\<rparr>)
         | c # cs \<Rightarrow> (Some (takeWhile (\<lambda>c. c \<noteq> CHR 0x0A) (data s)), s\<lparr>data := cs\<rparr>))
      else (None, s\<lparr>failbit := True\<rparr>))"

subsection \<open>Character classes\<close>

text \<open>\<open>isdigit\<close> and \<open>isalpha\<close> of \<open><cctype>\<close> in the "C" locale.\<close>

definition isdigit :: "char \<Rightarrow> bool" where
  "isdigit c = (48 \<le> (of_char c :: nat) \<and> (of_char c :: nat) \<le> 57)"

definition isalpha :: "char \<Rightarrow> bool" where
  "isalpha c =
     ((65 \<le> (of_char c :: nat) \<and> (of_char c :: nat) \<le> 90) \<or>
      (97 \<le> (of_char c :: nat) \<and> (of_char c :: nat) \<le> 122))"

definition IsSpecialChar :: "char \<Rightarrow> bool" where
  "IsSpecialChar c = (c = CHR ''='' \<or> c = CHR ''!'' \<or> c = CHR ''<'' \<or> c = CHR ''>'')"

subsection \<open>Readers of namespace details\<close>

definition ReadCompareOperator :: "char \<Rightarrow> token" where
  "ReadCompareOperator c =
     (if c = CHR ''='' then Eq
      else if c = CHR ''!'' then NotEq
      else if c = CHR ''<'' then LessOrEq
      else GreaterOrEq)"

definition ReadKeyword :: "string \<Rightarrow> token" where
  "ReadKeyword literal =
     (if literal = ''class'' then Class_t
      else if literal = ''return'' then Return_t
      else if literal = ''if'' then If_t
      else if literal = ''else'' then Else
      else if literal = ''def'' then Def
      else if literal = ''print'' then Print_t
      else if literal = ''or'' then Or_t
      else if literal = ''None'' then None_t
      else if literal = ''and'' then And_t
      else if literal = ''not'' then Not_t
      else if literal = ''True'' then True_t
      else if literal = ''False'' then False_t
      else Id literal)"

text \<open>The loop of \<open>ReadLiteral\<close>, with the literal read so far as accumulator.\<close>

function ReadLiteral_loop :: "string \<Rightarrow> stream \<Rightarrow> string \<times> stream" where
  "ReadLiteral_loop literal input =
     (case get input of
        (None, input') \<Rightarrow> (literal, input')
      | (Some c, input') \<Rightarrow>
          if isdigit c \<or> isalpha c \<or> c = CHR ''_''
          then ReadLiteral_loop (literal @ [c]) input'
          else (literal, putback c input'))"
  by pat_completeness auto
termination
  by (relation "measure (\<lambda>(literal, input). length (data input))")
     (auto simp: get_def split: if_splits list.splits)

declare ReadLiteral_loop.simps [simp del]

definition ReadLiteral :: "stream \<Rightarrow> string \<times> stream" where
  "ReadLiteral input = ReadLiteral_loop [] input"

text \<open>
  \<open>input >> number\<close> for an \<open>int\<close>, at the only place it is called: the stream is good
  and its next character is a digit, so neither white space nor a sign is skipped.
  The digits are extracted; a value beyond the largest \<open>int\<close> stores that largest
  value and sets \<open>failbit\<close>.
\<close>

definition INT_MAX :: int where
  "INT_MAX = 2147483647"

definition decimal_value :: "string \<Rightarrow> int" where
  "decimal_value ds = foldl (\<lambda>a d. 10 * a + (int (of_char d) - 48)) 0 ds"

definition ReadNumber :: "stream \<Rightarrow> int \<times> stream" where
  "ReadNumber input =
     (if good input then
        (let ds = takeWhile isdigit (data input);
             rest = dropWhile isdigit (data input);
             input1 = input\<lparr>data := rest, eofbit := (rest = [])\<rparr>
         in if ds = [] then (0, input1\<lparr>failbit := True\<rparr>)
            else if INT_MAX < decimal_value ds then (INT_MAX, input1\<lparr>failbit := True\<rparr>)
            else (decimal_value ds, input1))
      else (0, input\<lparr>failbit := True\<rparr>))"

text \<open>The character a backslash escape stands for; the \<open>switch\<close> of \<open>ReadString\<close>
  has no default label, so any other character appends nothing.\<close>

definition escape :: "char \<Rightarrow> string" where
  "escape c =
     (if c = CHR ''n'' then [CHR 0x0A]
      else if c = CHR ''t'' then [CHR 0x09]
      else if c = CHR ''r'' then [CHR 0x0D]
      else if c = CHR 0x5C then [CHR 0x5C]
      else if c = CHR 0x27 then [CHR 0x27]
      else if c = CHR 0x22 then [CHR 0x22]
      else [])"

text \<open>The loop of \<open>ReadString\<close>, with the string built so far as accumulator. When
  the \<open>get\<close> after a backslash fails, \<open>c\<close> still holds the backslash.\<close>

function ReadString_loop :: "string \<Rightarrow> stream \<Rightarrow> char \<Rightarrow> string \<times> stream" where
  "ReadString_loop s input prefix =
     (case get input of
        (None, input') \<Rightarrow> (s, input')
      | (Some c, input') \<Rightarrow>
          if c = prefix then (s, input')
          else if c = CHR 0x5C then
            (case get input' of
               (None, input'') \<Rightarrow> ReadString_loop (s @ escape c) input'' prefix
             | (Some c', input'') \<Rightarrow> ReadString_loop (s @ escape c') input'' prefix)
          else ReadString_loop (s @ [c]) input' prefix)"
  by pat_completeness auto
termination
  by (relation "measure (\<lambda>(s, input, prefix). length (data input))")
     (auto simp: get_def split: if_splits list.splits)

declare ReadString_loop.simps [simp del]

definition ReadString :: "stream \<Rightarrow> char \<Rightarrow> string \<times> stream" where
  "ReadString input prefix = ReadString_loop [] input prefix"

subsection \<open>The lexer\<close>

text \<open>The indentation state \<open>context_\<close>: the indentation already announced by
  \<open>Indent\<close> and \<open>Dedent\<close> tokens, and the indentation of the line being read, both in
  units of two spaces. The header that declares it is not among the sources; the
  counters are never decremented below zero by lexer.cpp and are modelled as naturals.\<close>

record Context =
  indent :: nat
  new_indent :: nat

text \<open>The members \<open>input_\<close>, \<open>line_\<close>, \<open>context_\<close> and \<open>current_token_\<close> of the lexer.\<close>

record Lexer =
  lx_input :: stream
  lx_line :: stream
  lx_context :: Context
  lx_current_token :: token

lemma dropWhile_Cons_length: "dropWhile P xs = c # cs \<Longrightarrow> length cs < length xs"
proof -
  assume "dropWhile P xs = c # cs"
  then have "Suc (length cs) = length (dropWhile P xs)"
    by simp
  also have "\<dots> \<le> length xs"
    by (rule length_dropWhile_le)
  finally show ?thesis
    by simp
qed

lemma getline_consumes:
  assumes "getline input = (Some line, input')"
  shows "length (data input') + (if good input' then 1 else 0)
         < length (data input) + (if good input then 1 else 0)"
proof (cases "dropWhile (\<lambda>c. c \<noteq> CHR 0x0A) (data input)")
  case Nil
  have g: "good input"
    using assms by (auto simp: getline_def split: if_splits)
  with assms Nil have "input' = input\<lparr>data := [], eofbit := True\<rparr>"
    unfolding getline_def by (auto split: if_splits)
  with g show ?thesis
    by (simp add: good_def)
next
  case (Cons c cs)
  then have less: "length cs < length (data input)"
    by (rule dropWhile_Cons_length)
  have g: "good input"
    using assms by (auto simp: getline_def split: if_splits)
  with assms Cons have "input' = input\<lparr>data := cs\<rparr>"
    unfolding getline_def by (auto split: if_splits)
  with less g show ?thesis
    by (simp add: good_def)
qed

text \<open>\<open>ReadNextLine\<close>: skip lines that are empty, blank or hold only a comment; the
  first other line sets \<open>new_indent\<close> and becomes the line buffer, with a newline
  appended. At the end of the input the line buffer is empty.\<close>

function ReadNextLine :: "stream \<Rightarrow> Context \<Rightarrow> stream \<times> stream \<times> Context" where
  "ReadNextLine input context =
     (case getline input of
        (None, input') \<Rightarrow> (istringstream [], input', context)
      | (Some line, input') \<Rightarrow>
          (let pos = length (takeWhile (\<lambda>c. c = CHR '' '') line) in
           if line \<noteq> [] \<and> pos < length line \<and> line ! pos \<noteq> CHR ''#''
           then (istringstream (line @ [CHR 0x0A]), input', context\<lparr>new_indent := pos div 2\<rparr>)
           else ReadNextLine input' context))"
  by pat_completeness auto
termination
proof (relation "measure (\<lambda>(input, context). length (data input) + (if good input then 1 else 0))")
  show "wf (measure (\<lambda>(input, context). length (data input) + (if good input then 1 else 0)))"
    by simp
next
  fix input :: stream and ctx :: Context and x y line
  assume "(x, y) = getline input" and "x = Some line"
  then have "getline input = (Some line, y)"
    by simp
  then have "length (data y) + (if good y then 1 else 0) < length (data input) + (if good input then 1 else 0)"
    by (rule getline_consumes)
  then show "((y, ctx), (input, ctx))
      \<in> measure (\<lambda>(input, context). length (data input) + (if good input then 1 else 0))"
    by simp
qed

declare ReadNextLine.simps [simp del]

text \<open>The loop \<open>while (c == ' ') line_.get(c)\<close>. A failed \<open>get\<close> leaves the space in
  \<open>c\<close>, and the loop goes on: on such a stream it does not return.\<close>

partial_function (option) skip_spaces :: "char \<Rightarrow> stream \<Rightarrow> (char \<times> stream) option" where
  "skip_spaces c line =
     (if c = CHR '' '' then
        (case get line of
           (None, line') \<Rightarrow> skip_spaces c line'
         | (Some c', line') \<Rightarrow> skip_spaces c' line')
      else Some (c, line))"

text \<open>The part of \<open>ReadToken\<close> after a character \<open>c\<close> has been read from the line
  buffer.\<close>

definition ReadToken_line :: "char \<Rightarrow> stream \<Rightarrow> (token \<times> stream) option" where
  "ReadToken_line c0 line0 =
     (if c0 = CHR 0x0A then Some (Newline, line0)
      else
        (case skip_spaces c0 line0 of
           None \<Rightarrow> None
         | Some (c, line) \<Rightarrow>
             if c = CHR ''#'' then Some (Newline, ignore_line line)
             else if IsSpecialChar c \<and> fst (peek line) = Some CHR ''=''
             then Some (ReadCompareOperator c, snd (get (snd (peek line))))
             else
               (let line1 = (if IsSpecialChar c then snd (peek line) else line) in
                if isalpha c \<or> c = CHR ''_'' then
                  (case ReadLiteral (putback c line1) of
                     (literal, line2) \<Rightarrow> Some (ReadKeyword literal, line2))
                else if c = CHR 0x22 \<or> c = CHR 0x27 then
                  (case ReadString line1 c of (s, line2) \<Rightarrow> Some (String_t s, line2))
                else if isdigit c then
                  (case ReadNumber (putback c line1) of
                     (number, line2) \<Rightarrow> Some (Number_t number, line2))
                else Some (Char_t c, line1))))"

text \<open>\<open>ReadToken\<close>. The result is \<open>None\<close> when the call does not return.\<close>

partial_function (option) ReadToken :: "Lexer \<Rightarrow> (token \<times> Lexer) option" where
  "ReadToken lx =
     (if indent (lx_context lx) < new_indent (lx_context lx) then
        Some (Indent, lx\<lparr>lx_context := (lx_context lx)\<lparr>indent := indent (lx_context lx) + 1\<rparr>\<rparr>)
      else if new_indent (lx_context lx) < indent (lx_context lx) then
        Some (Dedent, lx\<lparr>lx_context := (lx_context lx)\<lparr>indent := indent (lx_context lx) - 1\<rparr>\<rparr>)
      else
        (case get (lx_line lx) of
           (None, line) \<Rightarrow>
             if eofbit (lx_input lx) then
               (if 0 < indent (lx_context lx) then
                  Some (Dedent, lx\<lparr>lx_line := line,
                          lx_context := \<lparr>indent = indent (lx_context lx) - 1, new_indent = 0\<rparr>\<rparr>)
                else Some (Eof, lx\<lparr>lx_line := line\<rparr>))
             else
               (case ReadNextLine (lx_input lx) (lx_context lx) of
                  (line', input', context') \<Rightarrow>
                    ReadToken (lx\<lparr>lx_input := input', lx_line := line', lx_context := context'\<rparr>))
         | (Some c, line) \<Rightarrow>
             (case ReadToken_line c line of
                None \<Rightarrow> None
              | Some (t, line') \<Rightarrow> Some (t, lx\<lparr>lx_line := line'\<rparr>))))"

definition NextToken :: "Lexer \<Rightarrow> (token \<times> Lexer) option" where
  "NextToken lx =
     (case ReadToken lx of
        None \<Rightarrow> None
      | Some (t, lx') \<Rightarrow> Some (t, lx'\<lparr>lx_current_token := t\<rparr>))"

definition CurrentToken :: "Lexer \<Rightarrow> token" where
  "CurrentToken lx = lx_current_token lx"

text \<open>The constructor: read the first line, then the first token. The token member is
  default-constructed before the body runs, and the body overwrites it. Both
  indentation counters start at zero.\<close>

definition Lexer_new :: "stream \<Rightarrow> Lexer option" where
  "Lexer_new input =
     (case ReadNextLine input \<lparr>indent = 0, new_indent = 0\<rparr> of
        (line, input', context) \<Rightarrow>
          map_option snd
            (NextToken \<lparr>lx_input = input', lx_line = line, lx_context = context,
                        lx_current_token = Eof\<rparr>))"

text \<open>The tokens a client sees: the current token after construction, then the result
  of each \<open>NextToken\<close>, up to and including the first \<open>Eof\<close>.\<close>

partial_function (option) advance_to_Eof :: "token list \<Rightarrow> Lexer \<Rightarrow> token list option" where
  "advance_to_Eof seen lx =
     (if CurrentToken lx = Eof then Some (seen @ [Eof])
      else
        (case NextToken lx of
           None \<Rightarrow> None
         | Some (t, lx') \<Rightarrow> advance_to_Eof (seen @ [CurrentToken lx]) lx'))"

declare skip_spaces.simps [code] ReadToken.simps [code] advance_to_Eof.simps [code]

definition token_sequence :: "string \<Rightarrow> token list option" where
  "token_sequence program =
     (case Lexer_new (istringstream program) of
        None \<Rightarrow> None
      | Some lx \<Rightarrow> advance_to_Eof [] lx)"

section \<open>Runtime and statements (runtime.cpp, statement.cpp)\<close>

subsection \<open>Statements, classes and methods\<close>

text \<open>
  The nodes of the syntax tree whose \<open>Execute\<close> is defined in statement.cpp, and the
  class descriptor of runtime.cpp: a name, the methods in declaration order and the
  parent, if any. A method has a name, its formal parameters and a body. A comparison
  node holds one of the six comparison functions of runtime.cpp.
\<close>

datatype Comparator =
    Cmp_Equal
  | Cmp_Less
  | Cmp_NotEqual
  | Cmp_Greater
  | Cmp_LessOrEqual
  | Cmp_GreaterOrEqual

datatype Statement =
    Assignment string Statement
  | VariableValue "string list"
  | Print "Statement list"
  | MethodCall Statement string "Statement list"
  | Stringify Statement
  | Add Statement Statement
  | Sub Statement Statement
  | Mult Statement Statement
  | Div Statement Statement
  | Compound "Statement list"
  | Return Statement
  | ClassDefinition Class
  | FieldAssignment "string list" string Statement
  | IfElse Statement Statement "Statement option"
  | Or Statement Statement
  | And Statement Statement
  | Not_s Statement
  | Comparison Comparator Statement Statement
  | NewInstance Class "Statement list"
  | MethodBody Statement
and Class =
    Class (GetName: string) (class_methods: "Method list") (class_parent: "Class option")
and Method =
    Method (method_name: string) (formal_params: "string list") (method_body: Statement)

subsection \<open>Values\<close>

text \<open>
  An \<open>ObjectHolder\<close> is empty or points to an object: a number, a string, a boolean,
  a class, or a class instance. Instances are shared and mutable, so a holder of an
  instance is the index of the instance in the heap. The header that declares the
  value objects is not among the sources; numbers are modelled as integers.
\<close>

datatype ObjectHolder =
    None_v
  | Number int
  | String string
  | Bool bool
  | ClassObject Class
  | Instance nat

type_synonym Closure = "string \<Rightarrow> ObjectHolder option"

record ClassInstance =
  cls :: Class
  Fields :: Closure

text \<open>
  What executing a statement can read and change: the closure it runs in, the class
  instances by address with the next address to allocate, and the output stream of
  the context.
\<close>

record State =
  closure :: Closure
  heap :: "nat \<Rightarrow> ClassInstance"
  next_address :: nat
  output_stream :: string

text \<open>
  A call returns a value, or is left by the \<open>ReturnException\<close> of statement.cpp, or
  by a \<open>std::runtime_error\<close> with its message. \<open>attribute_error\<close> is the failure of a
  dotted access, raised in code that is not among the sources. Dereferencing a null
  pointer and a failed assertion have no defined result. \<open>out_of_fuel\<close> is not a
  behaviour of the program: it marks a run that needs more nested calls than the
  bound given.
\<close>

datatype error =
    runtime_error string
  | attribute_error
  | undefined_behaviour
  | out_of_fuel

datatype 'a outcome =
    Normal 'a State
  | ReturnException ObjectHolder State
  | Failure error

definition bind :: "'a outcome \<Rightarrow> ('a \<Rightarrow> State \<Rightarrow> 'b outcome) \<Rightarrow> 'b outcome" where
  "bind r f =
     (case r of
        Normal x s \<Rightarrow> f x s
      | ReturnException v s \<Rightarrow> ReturnException v s
      | Failure e \<Rightarrow> Failure e)"

definition TryAs_Number :: "ObjectHolder \<Rightarrow> int option" where
  "TryAs_Number object = (case object of Number n \<Rightarrow> Some n | _ \<Rightarrow> None)"

definition TryAs_Bool :: "ObjectHolder \<Rightarrow> bool option" where
  "TryAs_Bool object = (case object of Bool b \<Rightarrow> Some b | _ \<Rightarrow> None)"

definition TryAs_String :: "ObjectHolder \<Rightarrow> string option" where
  "TryAs_String object = (case object of String s \<Rightarrow> Some s | _ \<Rightarrow> None)"

definition TryAs_ClassInstance :: "ObjectHolder \<Rightarrow> nat option" where
  "TryAs_ClassInstance object = (case object of Instance r \<Rightarrow> Some r | _ \<Rightarrow> None)"

definition IsTrue :: "ObjectHolder \<Rightarrow> bool" where
  "IsTrue object =
     (case TryAs_Number object of
        Some number \<Rightarrow> number \<noteq> 0
      | None \<Rightarrow>
          (case TryAs_Bool object of
             Some boolean \<Rightarrow> boolean
           | None \<Rightarrow>
               (case TryAs_String object of
                  Some str \<Rightarrow> str \<noteq> []
                | None \<Rightarrow> False)))"

subsection \<open>Method lookup\<close>

fun GetMethod :: "Class \<Rightarrow> string \<Rightarrow> Method option" where
  "GetMethod (Class name methods parent) n =
     (case find (\<lambda>method. method_name method = n) methods of
        Some m \<Rightarrow> Some m
      | None \<Rightarrow> (case parent of None \<Rightarrow> None | Some p \<Rightarrow> GetMethod p n))"

definition HasMethod :: "Class \<Rightarrow> string \<Rightarrow> nat \<Rightarrow> bool" where
  "HasMethod c method argument_count =
     (case GetMethod c method of
        Some m \<Rightarrow> length (formal_params m) = argument_count
      | None \<Rightarrow> False)"

subsection \<open>Printing and arithmetic on primitive values\<close>

text \<open>The decimal form that \<open>os << value\<close> writes for an integer.\<close>

function decimal_nat :: "nat \<Rightarrow> string" where
  "decimal_nat n =
     (if n < 10 then [char_of (48 + n)]
      else decimal_nat (n div 10) @ [char_of (48 + n mod 10)])"
  by pat_completeness auto
termination
  by (relation "measure id") auto

declare decimal_nat.simps [simp del]

definition decimal :: "int \<Rightarrow> string" where
  "decimal i = (if i < 0 then CHR ''-'' # decimal_nat (nat (- i)) else decimal_nat (nat i))"

text \<open>\<open>os << this\<close> writes the address of the instance in a form the implementation
  chooses; the model writes the heap index.\<close>

definition pointer_text :: "nat \<Rightarrow> string" where
  "pointer_text r = ''0x'' @ decimal_nat r"

text \<open>\<open>operator<\<close> of \<open>std::string\<close>: lexicographic, characters compared as unsigned
  bytes.\<close>

fun string_less :: "string \<Rightarrow> string \<Rightarrow> bool" where
  "string_less [] [] = False"
| "string_less [] (y # ys) = True"
| "string_less (x # xs) [] = False"
| "string_less (x # xs) (y # ys) =
     ((of_char x :: nat) < of_char y \<or> (x = y \<and> string_less xs ys))"

text \<open>
  Arithmetic on \<open>int\<close>. A sum, difference or product beyond the range of \<open>int\<close> has
  no defined result in C++; the build computes it modulo \<open>2^32\<close> in two's complement,
  and the model writes this out. A quotient by a positive divisor is always in range.
\<close>

definition wrap_int :: "int \<Rightarrow> int" where
  "wrap_int i = (i + 2147483648) mod 4294967296 - 2147483648"

text \<open>The quotient of \<open>int\<close> division in C++: truncated toward zero.\<close>

definition int_div :: "int \<Rightarrow> int \<Rightarrow> int" where
  "int_div a b = sgn a * sgn b * (\<bar>a\<bar> div \<bar>b\<bar>)"

text \<open>The message of the error that \<open>Add::Execute\<close> throws.\<close>

definition Add_message :: string where
  "Add_message = ''Unsupported operand type(s) for +: 'int' and 'str'' @ [CHR 0x27]"

text \<open>
  Modelled from the spec: the function template \<open>Addition\<close> that \<open>Add::Execute\<close>
  calls is declared in a header that is not among the sources. For two operands of
  the given kind it yields their sum or concatenation, and nothing otherwise.
\<close>

definition Addition_Number :: "ObjectHolder \<Rightarrow> ObjectHolder \<Rightarrow> ObjectHolder option" where
  "Addition_Number lhs rhs =
     (case (lhs, rhs) of (Number a, Number b) \<Rightarrow> Some (Number (wrap_int (a + b))) | _ \<Rightarrow> None)"

definition Addition_String :: "ObjectHolder \<Rightarrow> ObjectHolder \<Rightarrow> ObjectHolder option" where
  "Addition_String lhs rhs =
     (case (lhs, rhs) of (String a, String b) \<Rightarrow> Some (String (a @ b)) | _ \<Rightarrow> None)"

text \<open>
  Modelled from the spec: \<open>GetVarByNameRange\<close>, which \<open>VariableValue::Execute\<close>
  calls, is not among the sources. Each further segment of a dotted name is looked up
  in the fields of the instance reached so far; a segment that is not a field, or an
  intermediate value that is not an instance, is an error.
\<close>

fun GetVarByNameRange :: "string list \<Rightarrow> ObjectHolder \<Rightarrow> State \<Rightarrow> ObjectHolder outcome" where
  "GetVarByNameRange [] object s = Normal object s"
| "GetVarByNameRange (name # names) object s =
     (case TryAs_ClassInstance object of
        Some r \<Rightarrow>
          (case Fields (heap s r) name of
             Some v \<Rightarrow> GetVarByNameRange names v s
           | None \<Rightarrow> Failure attribute_error)
      | None \<Rightarrow> Failure attribute_error)"

subsection \<open>Execution\<close>

text \<open>The closure \<open>ClassInstance::Call\<close> builds: \<open>self\<close>, then each formal parameter
  bound to the actual argument at its position.\<close>

definition method_closure :: "nat \<Rightarrow> string list \<Rightarrow> ObjectHolder list \<Rightarrow> Closure" where
  "method_closure r params actual_args =
     fold (\<lambda>(param_name, arg) c. c(param_name \<mapsto> arg)) (zip params actual_args)
       (Map.empty(''self'' \<mapsto> Instance r))"

text \<open>Leaving a call, by a value or by an exception: the closure of the caller is
  current again.\<close>

definition leave :: "Closure \<Rightarrow> 'a outcome \<Rightarrow> 'a outcome" where
  "leave c r =
     (case r of
        Normal x s \<Rightarrow> Normal x (s\<lparr>closure := c\<rparr>)
      | ReturnException v s \<Rightarrow> ReturnException v (s\<lparr>closure := c\<rparr>)
      | Failure e \<Rightarrow> Failure e)"

text \<open>\<open>ObjectHolder::Own(runtime::ClassInstance{class_})\<close>: a new instance of the
  class, without fields, at the next address.\<close>

definition Own_ClassInstance :: "Class \<Rightarrow> State \<Rightarrow> State" where
  "Own_ClassInstance c s =
     s\<lparr>heap := (heap s)(next_address s := \<lparr>cls = c, Fields = Map.empty\<rparr>),
       next_address := Suc (next_address s)\<rparr>"

text \<open>\<open>instance->Fields()[field_name] = v\<close> on the instance at address \<open>r\<close>.\<close>

definition set_field :: "nat \<Rightarrow> string \<Rightarrow> ObjectHolder \<Rightarrow> State \<Rightarrow> State" where
  "set_field r field_name v s =
     s\<lparr>heap := (heap s)(r := (heap s r)\<lparr>Fields := (Fields (heap s r))(field_name \<mapsto> v)\<rparr>)\<rparr>"

definition put :: "string \<Rightarrow> State \<Rightarrow> State" where
  "put str s = s\<lparr>output_stream := output_stream s @ str\<rparr>"

text \<open>
  The \<open>Execute\<close> of a node calls the \<open>Execute\<close> of its children through a virtual
  call, method bodies are statements again, and the virtual \<open>Print\<close> of a value
  calls itself on the result of \<open>__str__\<close>. The functions below take these two
  virtual calls as the parameters \<open>exec\<close> and \<open>print\<close>; the knot is tied afterwards.
\<close>

type_synonym executor = "Statement \<Rightarrow> State \<Rightarrow> ObjectHolder outcome"

type_synonym printer = "ObjectHolder \<Rightarrow> State \<Rightarrow> string outcome"

text \<open>The loop that executes the elements of a vector of statements in order and
  collects the results (\<open>args_\<close> of a call, \<open>statements_\<close> of a compound).\<close>

primrec ExecuteAll :: "executor \<Rightarrow> Statement list \<Rightarrow> State \<Rightarrow> ObjectHolder list outcome" where
  "ExecuteAll exec [] s = Normal [] s"
| "ExecuteAll exec (statement # statements) s =
     bind (exec statement s)
       (\<lambda>v s1. bind (ExecuteAll exec statements s1) (\<lambda>vs s2. Normal (v # vs) s2))"

text \<open>\<open>ClassInstance::Call\<close> on the instance at address \<open>r\<close>.\<close>

definition Call :: "executor \<Rightarrow> nat \<Rightarrow> string \<Rightarrow> ObjectHolder list \<Rightarrow> State \<Rightarrow> ObjectHolder outcome" where
  "Call exec r method actual_args s =
     (if HasMethod (cls (heap s r)) method (length actual_args) then
        (case GetMethod (cls (heap s r)) method of
           Some class_method \<Rightarrow>
             leave (closure s)
               (exec (method_body class_method)
                  (s\<lparr>closure := method_closure r (formal_params class_method) actual_args\<rparr>))
         | None \<Rightarrow> Failure (runtime_error (''Method '' @ method @ '' has not found'')))
      else Failure (runtime_error (''Method '' @ method @ '' has not found'')))"

text \<open>The virtual \<open>Print\<close> of the object a holder points to; for an instance this is
  \<open>ClassInstance::Print\<close>, for a boolean \<open>Bool::Print\<close> and for a class \<open>Class::Print\<close>.
  The \<open>Print\<close> of numbers and strings is declared in a header that is not among the
  sources and is modelled from the spec: a number prints its decimal form, a string
  its characters. The result is the text written to the stream argument; what method
  bodies print on the way goes to the context. An empty holder fails the assertion of
  \<open>operator->\<close>.\<close>

definition Print_object :: "executor \<Rightarrow> printer \<Rightarrow> ObjectHolder \<Rightarrow> State \<Rightarrow> string outcome" where
  "Print_object exec print object s =
     (case object of
        None_v \<Rightarrow> Failure undefined_behaviour
      | Number v \<Rightarrow> Normal (decimal v) s
      | String v \<Rightarrow> Normal v s
      | Bool v \<Rightarrow> Normal (if v then ''True'' else ''False'') s
      | ClassObject c \<Rightarrow> Normal (''Class '' @ GetName c) s
      | Instance r \<Rightarrow>
          if HasMethod (cls (heap s r)) ''__str__'' 0
          then bind (Call exec r ''__str__'' [] s) (\<lambda>result s1. print result s1)
          else Normal (pointer_text r) s)"

text \<open>The loop of \<open>Print::Execute\<close>.\<close>

primrec PrintArgs :: "executor \<Rightarrow> printer \<Rightarrow> bool \<Rightarrow> Statement list \<Rightarrow> State \<Rightarrow> unit outcome" where
  "PrintArgs exec print is_first [] s = Normal () s"
| "PrintArgs exec print is_first (arg # args) s =
     bind (exec arg (if is_first then s else put '' '' s))
       (\<lambda>object s1.
          if object \<noteq> None_v
          then bind (print object s1)
                 (\<lambda>str s2. PrintArgs exec print False args (put str s2))
          else PrintArgs exec print False args (put ''None'' s1))"

subsection \<open>Comparison\<close>

definition Equal :: "executor \<Rightarrow> ObjectHolder \<Rightarrow> ObjectHolder \<Rightarrow> State \<Rightarrow> bool outcome" where
  "Equal exec lhs rhs s =
     (if lhs = None_v \<and> rhs = None_v then Normal True s
      else
        (case lhs of
           Number left \<Rightarrow>
             (case rhs of
                Number right \<Rightarrow> Normal (left = right) s
              | _ \<Rightarrow> Failure (runtime_error ''Cannot compare objects for equality''))
         | Bool left \<Rightarrow>
             (case rhs of
                Bool right \<Rightarrow> Normal (left = right) s
              | _ \<Rightarrow> Failure (runtime_error ''Cannot compare objects for equality''))
         | String left \<Rightarrow>
             (case rhs of
                String right \<Rightarrow> Normal (left = right) s
              | _ \<Rightarrow> Failure (runtime_error ''Cannot compare objects for equality''))
         | Instance r \<Rightarrow>
             if HasMethod (cls (heap s r)) ''__eq__'' 1 then
               bind (Call exec r ''__eq__'' [rhs] s)
                 (\<lambda>res s1.
                    case TryAs_Bool res of
                      Some b \<Rightarrow> Normal b s1
                    | None \<Rightarrow> Failure undefined_behaviour)
             else Failure (runtime_error ''Cannot compare objects for equality'')
         | _ \<Rightarrow> Failure (runtime_error ''Cannot compare objects for equality'')))"

definition Less :: "executor \<Rightarrow> ObjectHolder \<Rightarrow> ObjectHolder \<Rightarrow> State \<Rightarrow> bool outcome" where
  "Less exec lhs rhs s =
     (if lhs = None_v \<or> rhs = None_v
      then Failure (runtime_error ''Cannot compare objects for equality 1'')
      else
        (case lhs of
           Number left \<Rightarrow>
             (case rhs of
                Number right \<Rightarrow> Normal (left < right) s
              | _ \<Rightarrow> Failure (runtime_error ''Cannot compare objects for equality 2''))
         | Bool left \<Rightarrow>
             (case rhs of
                Bool right \<Rightarrow> Normal (\<not> left \<and> right) s
              | _ \<Rightarrow> Failure (runtime_error ''Cannot compare objects for equality 2''))
         | String left \<Rightarrow>
             (case rhs of
                String right \<Rightarrow> Normal (string_less left right) s
              | _ \<Rightarrow> Failure (runtime_error ''Cannot compare objects for equality 2''))
         | Instance r \<Rightarrow>
             if HasMethod (cls (heap s r)) ''__lt__'' 1 then
               bind (Call exec r ''__lt__'' [rhs] s)
                 (\<lambda>res s1.
                    case TryAs_Bool res of
                      Some b \<Rightarrow> Normal b s1
                    | None \<Rightarrow> Failure undefined_behaviour)
             else Failure (runtime_error ''Cannot compare objects for equality 2'')
         | _ \<Rightarrow> Failure (runtime_error ''Cannot compare objects for equality 2'')))"

definition NotEqual :: "executor \<Rightarrow> ObjectHolder \<Rightarrow> ObjectHolder \<Rightarrow> State \<Rightarrow> bool outcome" where
  "NotEqual exec lhs rhs s =
     bind (Equal exec lhs rhs s) (\<lambda>eq s1. Normal (\<not> eq) s1)"

definition Greater :: "executor \<Rightarrow> ObjectHolder \<Rightarrow> ObjectHolder \<Rightarrow> State \<Rightarrow> bool outcome" where
  "Greater exec lhs rhs s =
     bind (Less exec lhs rhs s)
       (\<lambda>lt s1. if \<not> lt then NotEqual exec lhs rhs s1 else Normal False s1)"

definition LessOrEqual :: "executor \<Rightarrow> ObjectHolder \<Rightarrow> ObjectHolder \<Rightarrow> State \<Rightarrow> bool outcome" where
  "LessOrEqual exec lhs rhs s =
     bind (Less exec lhs rhs s)
       (\<lambda>lt s1. if lt then Normal True s1 else Equal exec lhs rhs s1)"

definition GreaterOrEqual :: "executor \<Rightarrow> ObjectHolder \<Rightarrow> ObjectHolder \<Rightarrow> State \<Rightarrow> bool outcome" where
  "GreaterOrEqual exec lhs rhs s =
     bind (Less exec lhs rhs s) (\<lambda>lt s1. Normal (\<not> lt) s1)"

text \<open>The call of the function a comparison node holds.\<close>

definition compare :: "executor \<Rightarrow> Comparator \<Rightarrow> ObjectHolder \<Rightarrow> ObjectHolder \<Rightarrow> State \<Rightarrow> bool outcome" where
  "compare exec cmp lhs rhs s =
     (case cmp of
        Cmp_Equal \<Rightarrow> Equal exec lhs rhs s
      | Cmp_Less \<Rightarrow> Less exec lhs rhs s
      | Cmp_NotEqual \<Rightarrow> NotEqual exec lhs rhs s
      | Cmp_Greater \<Rightarrow> Greater exec lhs rhs s
      | Cmp_LessOrEqual \<Rightarrow> LessOrEqual exec lhs rhs s
      | Cmp_GreaterOrEqual \<Rightarrow> GreaterOrEqual exec lhs rhs s)"

subsection \<open>The nodes\<close>

text \<open>
  \<open>Execute\<close> of each node class, in the order of statement.cpp. The two operands of a
  comparison are arguments of one call, which C++ evaluates in an order it does not
  specify; the build evaluates the arguments of a call from the last to the first,
  so the model takes the right operand first.
\<close>

fun Execute_node :: "executor \<Rightarrow> printer \<Rightarrow> Statement \<Rightarrow> State \<Rightarrow> ObjectHolder outcome" where
  "Execute_node exec print (Assignment var rv) s =
     bind (exec rv s)
       (\<lambda>v s1. Normal v (s1\<lparr>closure := (closure s1)(var \<mapsto> v)\<rparr>))"
| "Execute_node exec print (VariableValue dotted_ids) s =
     (case dotted_ids of
        [] \<Rightarrow> Failure undefined_behaviour
      | name # names \<Rightarrow>
          (case closure s name of
             None \<Rightarrow> Failure (runtime_error (''Name '' @ name @ '' is not defined''))
           | Some object \<Rightarrow> GetVarByNameRange names object s))"
| "Execute_node exec print (Print args) s =
     bind (PrintArgs exec print True args s) (\<lambda>u s1. Normal None_v (put [CHR 0x0A] s1))"
| "Execute_node exec print (MethodCall object method args) s =
     bind (ExecuteAll exec args s)
       (\<lambda>arguments s1.
          bind (exec object s1)
            (\<lambda>receiver s2.
               case TryAs_ClassInstance receiver of
                 None \<Rightarrow> Failure undefined_behaviour
               | Some r \<Rightarrow> Call exec r method arguments s2))"
| "Execute_node exec print (Stringify argument) s =
     bind (exec argument s)
       (\<lambda>object s1.
          if object \<noteq> None_v
          then bind (print object s1) (\<lambda>str s2. Normal (String str) s2)
          else Normal (String ''None'') s1)"
| "Execute_node exec print (Add lhs rhs) s =
     bind (exec lhs s)
       (\<lambda>l s1.
          bind (exec rhs s1)
            (\<lambda>r s2.
               if l \<noteq> None_v \<and> r \<noteq> None_v then
                 (case Addition_Number l r of
                    Some result \<Rightarrow> Normal result s2
                  | None \<Rightarrow>
                      (case Addition_String l r of
                         Some result \<Rightarrow> Normal result s2
                       | None \<Rightarrow>
                           (case TryAs_ClassInstance l of
                              Some left \<Rightarrow>
                                if HasMethod (cls (heap s2 left)) ''__add__'' 1
                                then Call exec left ''__add__'' [r] s2
                                else Failure (runtime_error Add_message)
                            | None \<Rightarrow> Failure (runtime_error Add_message))))
               else Failure (runtime_error Add_message)))"
| "Execute_node exec print (Sub lhs rhs) s =
     bind (exec lhs s)
       (\<lambda>l s1.
          bind (exec rhs s1)
            (\<lambda>r s2.
               if l \<noteq> None_v \<and> r \<noteq> None_v then
                 (case TryAs_Number l of
                    Some left \<Rightarrow>
                      (case TryAs_Number r of
                         Some right \<Rightarrow> Normal (Number (wrap_int (left - right))) s2
                       | None \<Rightarrow> Failure (runtime_error ''Unsupported operand type(s) for -''))
                  | None \<Rightarrow> Failure (runtime_error ''Unsupported operand type(s) for -''))
               else Failure (runtime_error ''Unsupported operand type(s) for -'')))"
| "Execute_node exec print (Mult lhs rhs) s =
     bind (exec lhs s)
       (\<lambda>l s1.
          bind (exec rhs s1)
            (\<lambda>r s2.
               if l \<noteq> None_v \<and> r \<noteq> None_v then
                 (case TryAs_Number l of
                    Some left \<Rightarrow>
                      (case TryAs_Number r of
                         Some right \<Rightarrow> Normal (Number (wrap_int (left * right))) s2
                       | None \<Rightarrow> Failure (runtime_error ''Unsupported operand type(s) for *''))
                  | None \<Rightarrow> Failure (runtime_error ''Unsupported operand type(s) for *''))
               else Failure (runtime_error ''Unsupported operand type(s) for *'')))"
| "Execute_node exec print (Div lhs rhs) s =
     bind (exec lhs s)
       (\<lambda>l s1.
          bind (exec rhs s1)
            (\<lambda>r s2.
               if l \<noteq> None_v \<and> r \<noteq> None_v then
                 (case TryAs_Number l of
                    Some left \<Rightarrow>
                      (case TryAs_Number r of
                         Some right \<Rightarrow>
                           if 0 < right then Normal (Number (int_div left right)) s2
                           else Failure (runtime_error ''Division by zero'')
                       | None \<Rightarrow> Failure (runtime_error ''Unsupported operand type(s) for /''))
                  | None \<Rightarrow> Failure (runtime_error ''Unsupported operand type(s) for /''))
               else Failure (runtime_error ''Unsupported operand type(s) for /'')))"
| "Execute_node exec print (Compound statements) s =
     bind (ExecuteAll exec statements s) (\<lambda>results s1. Normal None_v s1)"
| "Execute_node exec print (Return statement) s =
     bind (exec statement s) (\<lambda>result s1. ReturnException result s1)"
| "Execute_node exec print (ClassDefinition c) s =
     Normal (ClassObject c) (s\<lparr>closure := (closure s)(GetName c \<mapsto> ClassObject c)\<rparr>)"
| "Execute_node exec print (FieldAssignment object field_name rv) s =
     bind (Execute_node exec print (VariableValue object) s)
       (\<lambda>obj s1.
          bind (exec rv s1)
            (\<lambda>v s2.
               case TryAs_ClassInstance obj of
                 None \<Rightarrow> Failure undefined_behaviour
               | Some r \<Rightarrow> Normal v (set_field r field_name v s2)))"
| "Execute_node exec print (IfElse condition if_body else_body) s =
     bind (exec condition s)
       (\<lambda>c s1.
          if IsTrue c then exec if_body s1
          else (case else_body of
                  Some e \<Rightarrow> exec e s1
                | None \<Rightarrow> Normal None_v s1))"
| "Execute_node exec print (Or lhs rhs) s =
     bind (exec lhs s)
       (\<lambda>l s1.
          if IsTrue l then Normal (Bool True) s1
          else bind (exec rhs s1) (\<lambda>r s2. Normal (Bool (IsTrue r)) s2))"
| "Execute_node exec print (And lhs rhs) s =
     bind (exec lhs s)
       (\<lambda>l s1.
          if IsTrue l then bind (exec rhs s1) (\<lambda>r s2. Normal (Bool (IsTrue r)) s2)
          else Normal (Bool False) s1)"
| "Execute_node exec print (Not_s argument) s =
     bind (exec argument s) (\<lambda>v s1. Normal (Bool (\<not> IsTrue v)) s1)"
| "Execute_node exec print (Comparison cmp lhs rhs) s =
     bind (exec rhs s)
       (\<lambda>r s1.
          bind (exec lhs s1)
            (\<lambda>l s2. bind (compare exec cmp l r s2) (\<lambda>b s3. Normal (Bool b) s3)))"
| "Execute_node exec print (NewInstance c args) s =
     (let r = next_address s;
          s0 = Own_ClassInstance c s
      in if HasMethod c ''__init__'' (length args) then
           bind (ExecuteAll exec args s0)
             (\<lambda>params s1.
                bind (Call exec r ''__init__'' params s1) (\<lambda>result s2. Normal (Instance r) s2))
         else Normal (Instance r) s0)"
| "Execute_node exec print (MethodBody body) s =
     (case exec body s of
        Normal v s1 \<Rightarrow> Normal None_v s1
      | ReturnException result s1 \<Rightarrow> Normal result s1
      | Failure e \<Rightarrow> Failure e)"

subsection \<open>Tying the knot\<close>

text \<open>
  The virtual calls, bounded: \<open>interp n\<close> is the pair of \<open>Execute\<close> and \<open>Print\<close> that
  may nest virtual calls \<open>n\<close> deep, and \<open>out_of_fuel\<close> results when a run needs to go
  deeper.
\<close>

primrec interp :: "nat \<Rightarrow> executor \<times> printer" where
  "interp 0 = ((\<lambda>statement s. Failure out_of_fuel), (\<lambda>object s. Failure out_of_fuel))"
| "interp (Suc n) =
     (Execute_node (fst (interp n)) (snd (interp n)),
      Print_object (fst (interp n)) (snd (interp n)))"

definition Execute :: "nat \<Rightarrow> Statement \<Rightarrow> State \<Rightarrow> ObjectHolder outcome" where
  "Execute n = fst (interp n)"

definition Object_Print :: "nat \<Rightarrow> ObjectHolder \<Rightarrow> State \<Rightarrow> string outcome" where
  "Object_Print n = snd (interp n)"



section \<open>Definitions for the statements of the properties\<close>

subsection \<open>String literals\<close>









subsection \<open>Method lookup and evaluation order\<close>

text \<open>The methods a lookup goes through, in its order: the methods of the class, then
  those of its ancestors.\<close>

fun chain_methods :: "Class \<Rightarrow> Method list" where
  "chain_methods (Class name methods parent) =
     methods @ (case parent of None \<Rightarrow> [] | Some p \<Rightarrow> chain_methods p)"

text \<open>Lookup by name finds a method, and the method found has \<open>k\<close> parameters: the
  first method of the chain with that name decides, whatever follows it.\<close>

definition lookup_has_arity :: "Class \<Rightarrow> string \<Rightarrow> nat \<Rightarrow> bool" where
  "lookup_has_arity c name k =
     (case find (\<lambda>m. method_name m = name) (chain_methods c) of
        Some m \<Rightarrow> length (formal_params m) = k
      | None \<Rightarrow> False)"

text \<open>Some class of the chain defines a method with that name and \<open>k\<close> parameters.\<close>

definition chain_defines :: "Class \<Rightarrow> string \<Rightarrow> nat \<Rightarrow> bool" where
  "chain_defines c name k =
     list_ex (\<lambda>m. method_name m = name \<and> length (formal_params m) = k) (chain_methods c)"

text \<open>The value a call returns, if it returns one.\<close>

fun returned :: "'a outcome \<Rightarrow> 'a option" where
  "returned (Normal x s) = Some x"
| "returned (ReturnException v s) = None"
| "returned (Failure e) = None"

text \<open>
  The order of evaluation that the specification describes for a method call, to be
  compared with \<open>MethodCall::Execute\<close>: the receiver first, then the arguments from
  left to right, then the call.
\<close>

definition MethodCall_receiver_first ::
    "executor \<Rightarrow> Statement \<Rightarrow> string \<Rightarrow> Statement list \<Rightarrow> State \<Rightarrow> ObjectHolder outcome" where
  "MethodCall_receiver_first exec object method args s =
     bind (exec object s)
       (\<lambda>receiver s1.
          bind (ExecuteAll exec args s1)
            (\<lambda>arguments s2.
               case TryAs_ClassInstance receiver of
                 None \<Rightarrow> Failure undefined_behaviour
               | Some r \<Rightarrow> Call exec r method arguments s2))"

subsection \<open>Example programs\<close>

text \<open>
  Class \<open>A\<close> defines \<open>f\<close> without parameters; its child \<open>B\<close> defines \<open>f\<close> with one
  parameter, which it returns. Class \<open>S\<close> has a \<open>__str__\<close> that returns the class \<open>A\<close>.
  Class \<open>C\<close> has an \<open>__init__\<close> that stores its argument in the field \<open>v\<close>.
\<close>

definition example_A :: Class where
  "example_A = Class ''A'' [Method ''f'' [] (MethodBody (Return (VariableValue [''self''])))] None"

definition example_B :: Class where
  "example_B =
     Class ''B'' [Method ''f'' [''x''] (MethodBody (Return (VariableValue [''x''])))]
       (Some example_A)"

definition example_S :: Class where
  "example_S =
     Class ''S'' [Method ''__str__'' [] (MethodBody (Return (ClassDefinition example_A)))] None"

definition example_C :: Class where
  "example_C =
     Class ''C''
       [Method ''__init__'' [''v'']
          (MethodBody (FieldAssignment [''self''] ''v'' (VariableValue [''v''])))]
       None"

text \<open>Class \<open>D\<close>, a child of \<open>C\<close>, has an \<open>__init__\<close> without parameters. Class \<open>T\<close>, a
  child of \<open>S\<close>, has a \<open>__str__\<close> with one parameter.\<close>

definition example_D :: Class where
  "example_D = Class ''D'' [Method ''__init__'' [] (MethodBody (Compound []))] (Some example_C)"


text \<open>A state with three numbers in the closure, an instance of \<open>B\<close> at address 0
  and an instance of \<open>S\<close> at address 1.\<close>

definition example_state :: State where
  "example_state =
     \<lparr>closure = [''x'' \<mapsto> Number (- 7), ''y'' \<mapsto> Number 2, ''z'' \<mapsto> Number 0],
      heap = (\<lambda>r. \<lparr>cls = (if r = 0 then example_B else example_S), Fields = Map.empty\<rparr>),
      next_address = 2,
      output_stream = []\<rparr>"

text \<open>The example state after \<open>o\<close> has been bound to a new instance of \<open>B\<close>.\<close>

definition example_bound :: State where
  "example_bound =
     (Own_ClassInstance example_B example_state)
       \<lparr>closure := (closure example_state)(''o'' \<mapsto> Instance 2)\<rparr>"


text \<open>The example state after an instance of the class \<open>c\<close> has been allocated at
  address 2, and after the \<open>__init__\<close> of \<open>C\<close> has stored \<open>-7\<close> in the field \<open>v\<close> of such
  an instance.\<close>

definition example_allocated :: "Class \<Rightarrow> State" where
  "example_allocated c =
     example_state
       \<lparr>heap := (heap example_state)(2 := \<lparr>cls = c, Fields = Map.empty\<rparr>),
        next_address := 3\<rparr>"

definition example_initialised :: State where
  "example_initialised =
     example_state
       \<lparr>heap := (heap example_state)
          (2 := \<lparr>cls = example_C, Fields = [''v'' \<mapsto> Number (- 7)]\<rparr>),
        next_address := 3\<rparr>"

subsection \<open>Invariants and measures of the lexer\<close>

text \<open>What a stream can still deliver: the length of its buffer while it is good.\<close>

definition remaining :: "stream \<Rightarrow> nat" where
  "remaining s = (if good s then length (data s) else 0)"

text \<open>The line buffer, while it is good, is empty or ends with the newline that
  \<open>ReadNextLine\<close> appended.\<close>

definition line_ok :: "stream \<Rightarrow> bool" where
  "line_ok s = (\<not> good s \<or> data s = [] \<or> last (data s) = CHR 0x0A)"

text \<open>The line buffer right after the character \<open>c\<close> has been read from it: unless
  \<open>c\<close> was the newline, the newline is still to come.\<close>

definition ready :: "char \<Rightarrow> stream \<Rightarrow> bool" where
  "ready c s =
     (good s \<and> (data s = [] \<or> last (data s) = CHR 0x0A) \<and> (c \<noteq> CHR 0x0A \<longrightarrow> data s \<noteq> []))"

text \<open>The tokens that \<open>ReadToken\<close> derives from the indentation state and the end of
  the input, not from characters of a line.\<close>

definition structural :: "token \<Rightarrow> bool" where
  "structural t = (t = Indent \<or> t = Dedent \<or> t = Eof)"

text \<open>The input stream fails only at its end: \<open>getline\<close> is the only operation the
  lexer applies to it.\<close>

definition input_inv :: "stream \<Rightarrow> bool" where
  "input_inv s = (failbit s \<longrightarrow> eofbit s)"

text \<open>A bound on the calls of \<open>getline\<close> that can still succeed.\<close>

definition imeasure :: "stream \<Rightarrow> nat" where
  "imeasure s = length (data s) + (if good s then 1 else 0)"

definition lexer_inv :: "Lexer \<Rightarrow> bool" where
  "lexer_inv lx = (line_ok (lx_line lx) \<and> input_inv (lx_input lx))"

text \<open>The distance between the two indentation counters, weighted so that it also
  falls when the end of the input resets \<open>new_indent\<close> to zero.\<close>

definition fmeasure :: "Context \<Rightarrow> nat" where
  "fmeasure c =
     (if indent c \<le> new_indent c then new_indent c - indent c
      else indent c - new_indent c) + 2 * new_indent c"

text \<open>Every call of \<open>ReadToken\<close> that returns a token other than \<open>Eof\<close> goes down in
  this order: input left, then line left, then indentation distance.\<close>

definition lex_rel :: "(Lexer \<times> Lexer) set" where
  "lex_rel =
     inv_image (less_than <*lex*> less_than <*lex*> less_than)
       (\<lambda>lx. (imeasure (lx_input lx), remaining (lx_line lx), fmeasure (lx_context lx)))"

text \<open>How a call of \<open>ReadToken\<close> that returns \<open>t\<close> changes the counter \<open>indent\<close>.\<close>

definition step_ok :: "token \<Rightarrow> Lexer \<Rightarrow> Lexer \<Rightarrow> bool" where
  "step_ok t lx lx' =
     (indent (lx_context lx') =
        (if t = Indent then indent (lx_context lx) + 1
         else if t = Dedent then indent (lx_context lx) - 1
         else indent (lx_context lx)) \<and>
      (t = Dedent \<longrightarrow> 0 < indent (lx_context lx)) \<and>
      (t = Eof \<longrightarrow> indent (lx_context lx) = 0))"

text \<open>No prefix holds more \<open>Dedent\<close> than \<open>Indent\<close> tokens.\<close>

definition prefix_ok :: "token list \<Rightarrow> bool" where
  "prefix_ok ts = (\<forall>k. count_list (take k ts) Dedent \<le> count_list (take k ts) Indent)"

text \<open>The invariant of the loop that collects the tokens: the counter \<open>indent\<close> is the
  balance of the tokens seen, the current one included.\<close>

definition seq_inv :: "token list \<Rightarrow> Lexer \<Rightarrow> bool" where
  "seq_inv seen lx =
     (lexer_inv lx \<and> prefix_ok (seen @ [CurrentToken lx]) \<and>
      count_list (seen @ [CurrentToken lx]) Indent =
        count_list (seen @ [CurrentToken lx]) Dedent + indent (lx_context lx) \<and>
      (CurrentToken lx = Eof \<longrightarrow> indent (lx_context lx) = 0))"

definition balanced :: "token list \<Rightarrow> bool" where
  "balanced ts =
     (last ts = Eof \<and> count_list ts Indent = count_list ts Dedent \<and> prefix_ok ts)"

section \<open>Properties of the lexer\<close>

subsection \<open>Stream operations and the readers\<close>

text \<open>Each reader leaves the line buffer in order and never adds to what is left of
  it.\<close>

lemma get_Some:
  assumes "get s = (Some c, s')"
  shows "good s" and "data s = c # data s'" and "s' = s\<lparr>data := data s'\<rparr>" and "good s'"
  using assms by (auto simp: get_def good_def split: if_splits list.splits)

lemma get_None:
  assumes "get s = (None, s')"
  shows "\<not> good s'" and "remaining s = 0" and "failbit s'"
  using assms by (auto simp: get_def good_def remaining_def split: if_splits list.splits)

lemma get_good: "good s \<Longrightarrow> data s = c # cs \<Longrightarrow> get s = (Some c, s\<lparr>data := cs\<rparr>)"
  by (simp add: get_def)

lemma get_line_ok: "line_ok s \<Longrightarrow> get s = (r, s') \<Longrightarrow> line_ok s'"
  by (auto simp: get_def good_def line_ok_def split: if_splits list.splits)

lemma get_remaining: "get s = (Some c, s') \<Longrightarrow> remaining s = Suc (remaining s')"
  by (auto simp: get_def good_def remaining_def split: if_splits list.splits)

lemma putback_get: "get s = (Some c, s') \<Longrightarrow> putback c s' = s"
  by (auto simp: get_def good_def putback_def split: if_splits list.splits)

lemma ReadLiteral_loop_props:
  "line_ok input \<Longrightarrow> ReadLiteral_loop literal input = (r, input') \<Longrightarrow>
     line_ok input' \<and> remaining input' \<le> remaining input"
proof (induction literal input arbitrary: r input' rule: ReadLiteral_loop.induct)
  case (1 literal input)
  show ?case
  proof (cases "get input")
    case (Pair x input1)
    show ?thesis
    proof (cases x)
      case None
      with Pair 1(3) have "input' = input1"
        by (simp add: ReadLiteral_loop.simps [of literal input])
      with Pair None 1(2) show ?thesis
        using get_line_ok [of input None input1] get_None [of input input1]
        by (simp add: remaining_def)
    next
      case (Some c)
      show ?thesis
      proof (cases "isdigit c \<or> isalpha c \<or> c = CHR ''_''")
        case True
        with Pair Some 1(3) have eq: "ReadLiteral_loop (literal @ [c]) input1 = (r, input')"
          by (simp add: ReadLiteral_loop.simps [of literal input])
        have ok1: "line_ok input1"
          using 1(2) Pair by (rule get_line_ok)
        have "line_ok input' \<and> remaining input' \<le> remaining input1"
          using "1.IH" [OF Pair [symmetric] Some True ok1 eq] .
        moreover have "remaining input = Suc (remaining input1)"
          using Pair Some get_remaining by simp
        ultimately show ?thesis by simp
      next
        case False
        with Pair Some 1(3) have "input' = putback c input1"
          by (simp add: ReadLiteral_loop.simps [of literal input])
        also have "\<dots> = input"
          using Pair Some putback_get by simp
        finally show ?thesis using 1(2) by simp
      qed
    qed
  qed
qed

lemma ReadString_loop_props:
  "line_ok input \<Longrightarrow> ReadString_loop s input prefix = (r, input') \<Longrightarrow>
     line_ok input' \<and> remaining input' \<le> remaining input"
proof (induction s input prefix arbitrary: r input' rule: ReadString_loop.induct)
  case (1 s input prefix)
  show ?case
  proof (cases "get input")
    case (Pair x input1)
    have ok1: "line_ok input1"
      using 1(4) Pair by (rule get_line_ok)
    show ?thesis
    proof (cases x)
      case None
      with Pair 1(5) have "input' = input1"
        by (simp add: ReadString_loop.simps [of s input])
      with Pair None ok1 show ?thesis
        using get_None [of input input1]
        by (simp add: remaining_def)
    next
      case (Some c)
      have rem: "remaining input = Suc (remaining input1)"
        using Pair Some get_remaining by simp
      show ?thesis
      proof (cases "c = prefix")
        case True
        with Pair Some 1(5) have "input' = input1"
          by (simp add: ReadString_loop.simps [of s input])
        with ok1 rem show ?thesis by simp
      next
        case np: False
        show ?thesis
        proof (cases "c = CHR 0x5C")
          case True
          show ?thesis
          proof (cases "get input1")
            case p2: (Pair y input2)
            have ok2: "line_ok input2"
              using ok1 p2 by (rule get_line_ok)
            have rem2: "remaining input2 \<le> remaining input1"
              using p2 get_remaining [of input1 _ input2] get_None [of input1 input2]
              by (cases y) (auto simp: remaining_def)
            show ?thesis
            proof (cases y)
              case None
              with Pair Some np True p2 1(5)
              have eq: "ReadString_loop (s @ escape c) input2 prefix = (r, input')"
                by (simp add: ReadString_loop.simps [of s input])
              have "line_ok input' \<and> remaining input' \<le> remaining input2"
                using "1.IH"(1) [OF Pair [symmetric] Some np True p2 [symmetric] None ok2 eq] .
              with rem rem2 show ?thesis by simp
            next
              case s2: (Some c')
              with Pair Some np True p2 1(5)
              have eq: "ReadString_loop (s @ escape c') input2 prefix = (r, input')"
                by (simp add: ReadString_loop.simps [of s input])
              have "line_ok input' \<and> remaining input' \<le> remaining input2"
                using "1.IH"(2) [OF Pair [symmetric] Some np True p2 [symmetric] s2 ok2 eq] .
              with rem rem2 show ?thesis by simp
            qed
          qed
        next
          case False
          with Pair Some np 1(5)
          have eq: "ReadString_loop (s @ [c]) input1 prefix = (r, input')"
            by (simp add: ReadString_loop.simps [of s input])
          have "line_ok input' \<and> remaining input' \<le> remaining input1"
            using "1.IH"(3) [OF Pair [symmetric] Some np False ok1 eq] .
          with rem show ?thesis by simp
        qed
      qed
    qed
  qed
qed

lemma ready_get:
  assumes "line_ok s" and "get s = (Some c, s')"
  shows "ready c s'"
proof -
  have g: "good s" and d: "data s = c # data s'" and g': "good s'"
    using assms(2) by (rule get_Some)+
  from assms(1) g d have "last (c # data s') = CHR 0x0A"
    by (simp add: line_ok_def)
  with g' show ?thesis
    by (auto simp: ready_def split: if_splits)
qed

lemma skip_spaces_props:
  "ready c s \<Longrightarrow>
   \<exists>c' s'. skip_spaces c s = Some (c', s') \<and> ready c' s' \<and> c' \<noteq> CHR '' '' \<and>
     remaining s' \<le> remaining s"
proof (induction "data s" arbitrary: c s)
  case Nil
  then have "c = CHR 0x0A"
    by (simp add: ready_def)
  then have "skip_spaces c s = Some (c, s)"
    by (simp add: skip_spaces.simps)
  with Nil \<open>c = CHR 0x0A\<close> show ?case by simp
next
  case (Cons x xs)
  show ?case
  proof (cases "c = CHR '' ''")
    case False
    then have "skip_spaces c s = Some (c, s)"
      by (simp add: skip_spaces.simps)
    with Cons(3) False show ?thesis by simp
  next
    case True
    have g: "good s" using Cons(3) by (simp add: ready_def)
    have ok: "line_ok s" using Cons(3) by (simp add: ready_def line_ok_def)
    have gt: "get s = (Some x, s\<lparr>data := xs\<rparr>)"
      using g Cons(2) [symmetric] by (rule get_good)
    have r': "ready x (s\<lparr>data := xs\<rparr>)"
      using ok gt by (rule ready_get)
    have "xs = data (s\<lparr>data := xs\<rparr>)" by simp
    from Cons(1) [OF this r'] obtain c' s' where
      res: "skip_spaces x (s\<lparr>data := xs\<rparr>) = Some (c', s')" and
      props: "ready c' s'" "c' \<noteq> CHR '' ''" "remaining s' \<le> remaining (s\<lparr>data := xs\<rparr>)"
      by blast
    have "skip_spaces c s = skip_spaces x (s\<lparr>data := xs\<rparr>)"
      using True gt by (subst skip_spaces.simps) simp
    moreover have "remaining (s\<lparr>data := xs\<rparr>) \<le> remaining s"
      using gt get_remaining [of s x] by simp
    ultimately show ?thesis
      using res props by auto
  qed
qed

lemma ignore_line_props:
  "line_ok s \<Longrightarrow> line_ok (ignore_line s) \<and> remaining (ignore_line s) \<le> remaining s"
proof (cases "good s")
  case False
  then have "ignore_line s = s\<lparr>failbit := True\<rparr>"
    by (simp add: ignore_line_def)
  then show ?thesis
    by (simp add: line_ok_def remaining_def good_def)
next
  case True
  assume ok: "line_ok s"
  show ?thesis
  proof (cases "dropWhile (\<lambda>c. c \<noteq> CHR 0x0A) (data s)")
    case Nil
    with True have "ignore_line s = s\<lparr>data := [], eofbit := True\<rparr>"
      by (simp add: ignore_line_def del: dropWhile_eq_Nil_conv)
    then show ?thesis
      by (simp add: line_ok_def remaining_def good_def)
  next
    case (Cons c cs)
    then have len: "length cs < length (data s)"
      by (rule dropWhile_Cons_length)
    have il: "ignore_line s = s\<lparr>data := cs\<rparr>"
      using True Cons by (simp add: ignore_line_def)
    have "data s = takeWhile (\<lambda>c. c \<noteq> CHR 0x0A) (data s) @ c # cs"
      using Cons takeWhile_dropWhile_id [of "\<lambda>c. c \<noteq> CHR 0x0A" "data s"] by simp
    then have "cs \<noteq> [] \<longrightarrow> last (data s) = last cs"
      by (metis last_appendR last_ConsR list.distinct(1))
    moreover have "data s \<noteq> []"
      using len by auto
    ultimately have "cs = [] \<or> last cs = CHR 0x0A"
      using ok True by (auto simp: line_ok_def)
    with il len True show ?thesis
      by (auto simp: line_ok_def remaining_def good_def)
  qed
qed

lemma peek_props:
  "line_ok s \<Longrightarrow> line_ok (snd (peek s)) \<and> remaining (snd (peek s)) \<le> remaining s"
  by (auto simp: peek_def line_ok_def remaining_def good_def split: list.splits)

lemma dropWhile_last: "dropWhile P xs \<noteq> [] \<Longrightarrow> last (dropWhile P xs) = last xs"
  by (induction xs) (auto split: if_splits)

lemma ReadNumber_props:
  assumes "good s" and "data s \<noteq> []" and "last (data s) = CHR 0x0A" and "isdigit c"
  shows "line_ok (snd (ReadNumber (putback c s))) \<and>
         remaining (snd (ReadNumber (putback c s))) \<le> remaining s"
proof -
  have pb: "putback c s = s\<lparr>data := c # data s\<rparr>"
    using assms(1) by (simp add: putback_def good_def)
  have gp: "good (putback c s)"
    using assms(1) pb by (simp add: good_def)
  let ?rest = "dropWhile isdigit (data s)"
  have rest: "dropWhile isdigit (data (putback c s)) = ?rest"
    using pb assms(4) by simp
  have "?rest \<noteq> [] \<Longrightarrow> last ?rest = CHR 0x0A"
    using dropWhile_last [of isdigit "data s"] assms(3) by simp
  moreover have "length ?rest \<le> length (data s)"
    by (rule length_dropWhile_le)
  ultimately show ?thesis
    using gp rest assms(1)
    by (auto simp: ReadNumber_def Let_def line_ok_def remaining_def good_def)
qed

subsection \<open>Tokens read from a line\<close>

lemma ReadKeyword_not_structural: "\<not> structural (ReadKeyword literal)"
  by (simp add: ReadKeyword_def structural_def)

lemma ReadCompareOperator_not_structural: "\<not> structural (ReadCompareOperator c)"
  by (simp add: ReadCompareOperator_def structural_def)

lemma ready_line_ok: "ready c s \<Longrightarrow> line_ok s"
  by (simp add: ready_def line_ok_def)

lemma ReadLiteral_putback_props:
  assumes "ready c s" and "c \<noteq> CHR 0x0A"
  shows "line_ok (snd (ReadLiteral (putback c s))) \<and>
         remaining (snd (ReadLiteral (putback c s))) \<le> Suc (remaining s)"
proof -
  have g: "good s" and ne: "data s \<noteq> []" and l: "last (data s) = CHR 0x0A"
    using assms by (auto simp: ready_def)
  have pb: "putback c s = s\<lparr>data := c # data s\<rparr>"
    using g by (simp add: putback_def good_def)
  have ok: "line_ok (putback c s)"
    using pb ne l by (simp add: line_ok_def)
  have rem: "remaining (putback c s) = Suc (remaining s)"
    using pb g by (simp add: remaining_def good_def)
  obtain r s' where res: "ReadLiteral_loop [] (putback c s) = (r, s')"
    by (cases "ReadLiteral_loop [] (putback c s)")
  from ReadLiteral_loop_props [OF ok res] rem res show ?thesis
    by (simp add: ReadLiteral_def)
qed

lemma ReadLiteral_putback_consumes:
  assumes "ready c s" and "isalpha c \<or> c = CHR ''_''"
  shows "line_ok (snd (ReadLiteral (putback c s))) \<and>
         remaining (snd (ReadLiteral (putback c s))) \<le> remaining s"
proof -
  have g: "good s"
    using assms by (auto simp: ready_def)
  have pb: "putback c s = s\<lparr>data := c # data s\<rparr>"
    using g by (simp add: putback_def good_def)
  have gp: "good (putback c s)"
    using g pb by (simp add: good_def)
  have gt: "get (putback c s) = (Some c, s)"
    using get_good [OF gp, of c "data s"] pb by simp
  have unf: "ReadLiteral_loop [] (putback c s) = ReadLiteral_loop [c] s"
    using gt assms(2) by (subst ReadLiteral_loop.simps) simp
  obtain r s' where res: "ReadLiteral_loop [c] s = (r, s')"
    by (cases "ReadLiteral_loop [c] s")
  from ReadLiteral_loop_props [OF ready_line_ok [OF assms(1)] res] unf res show ?thesis
    by (simp add: ReadLiteral_def)
qed

lemma ReadString_props:
  assumes "line_ok s"
  shows "line_ok (snd (ReadString s q)) \<and> remaining (snd (ReadString s q)) \<le> remaining s"
proof -
  obtain r s' where res: "ReadString_loop [] s q = (r, s')"
    by (cases "ReadString_loop [] s q")
  from ReadString_loop_props [OF assms res] res show ?thesis
    by (simp add: ReadString_def)
qed

lemma get_props:
  "line_ok s \<Longrightarrow> line_ok (snd (get s)) \<and> remaining (snd (get s)) \<le> remaining s"
  by (auto simp: get_def line_ok_def remaining_def good_def split: list.splits if_splits)

lemma ReadToken_line_props:
  assumes "ready c s"
  shows "\<exists>t s'. ReadToken_line c s = Some (t, s') \<and> \<not> structural t \<and> line_ok s' \<and>
           remaining s' \<le> remaining s"
proof (cases "c = CHR 0x0A")
  case True
  then show ?thesis
    using assms by (simp add: ReadToken_line_def structural_def ready_line_ok)
next
  case False
  from skip_spaces_props [OF assms] obtain c1 s1 where
    sk: "skip_spaces c s = Some (c1, s1)" and r1: "ready c1 s1" and nsp: "c1 \<noteq> CHR '' ''" and
    rem1: "remaining s1 \<le> remaining s"
    by blast
  have ok1: "line_ok s1"
    using r1 by (rule ready_line_ok)
  let ?p = "snd (peek s1)"
  have okp: "line_ok ?p" and remp: "remaining ?p \<le> remaining s1"
    using peek_props [OF ok1] by simp_all
  have peek_ready: "c1 \<noteq> CHR 0x0A \<Longrightarrow> ?p = s1"
    using r1 by (auto simp: ready_def peek_def split: list.splits)
  show ?thesis
  proof (cases "c1 = CHR ''#''")
    case True
    then have "ReadToken_line c s = Some (Newline, ignore_line s1)"
      using False sk by (simp add: ReadToken_line_def)
    with ignore_line_props [OF ok1] rem1 show ?thesis
      by (simp add: structural_def)
  next
    case nhash: False
    show ?thesis
    proof (cases "IsSpecialChar c1 \<and> fst (peek s1) = Some CHR ''=''")
      case True
      then have "ReadToken_line c s = Some (ReadCompareOperator c1, snd (get ?p))"
        using False sk nhash by (simp add: ReadToken_line_def)
      with get_props [OF okp] remp rem1 ReadCompareOperator_not_structural [of c1]
      show ?thesis by simp
    next
      case ncmp: False
      define s2 where "s2 = (if IsSpecialChar c1 then ?p else s1)"
      have ok2: "line_ok s2" and rem2: "remaining s2 \<le> remaining s1"
        using okp remp ok1 by (simp_all add: s2_def)
      have s2_eq: "c1 \<noteq> CHR 0x0A \<Longrightarrow> s2 = s1"
        using peek_ready by (simp add: s2_def)
      show ?thesis
      proof (cases "isalpha c1 \<or> c1 = CHR ''_''")
        case True
        then have nnl: "c1 \<noteq> CHR 0x0A"
          by (auto simp: isalpha_def)
        obtain lit s3 where rl: "ReadLiteral (putback c1 s2) = (lit, s3)"
          by (cases "ReadLiteral (putback c1 s2)")
        have "ReadToken_line c s = Some (ReadKeyword lit, s3)"
          using False sk nhash ncmp True rl
          by (auto simp add: ReadToken_line_def s2_def Let_def)
        moreover have "line_ok s3 \<and> remaining s3 \<le> remaining s1"
          using ReadLiteral_putback_consumes [OF r1 True] rl s2_eq [OF nnl] by simp
        ultimately show ?thesis
          using rem1 ReadKeyword_not_structural [of lit] by simp
      next
        case nalpha: False
        show ?thesis
        proof (cases "c1 = CHR 0x22 \<or> c1 = CHR 0x27")
          case True
          obtain str s3 where rs: "ReadString s2 c1 = (str, s3)"
            by (cases "ReadString s2 c1")
          have "ReadToken_line c s = Some (String_t str, s3)"
            using False sk nhash ncmp nalpha True rs
            by (auto simp add: ReadToken_line_def s2_def Let_def)
          moreover have "line_ok s3 \<and> remaining s3 \<le> remaining s2"
            using ReadString_props [OF ok2, of c1] rs by simp
          ultimately show ?thesis
            using rem1 rem2 by (simp add: structural_def)
        next
          case nquote: False
          show ?thesis
          proof (cases "isdigit c1")
            case True
            then have nnl: "c1 \<noteq> CHR 0x0A"
              by (auto simp: isdigit_def)
            obtain n s3 where rn: "ReadNumber (putback c1 s2) = (n, s3)"
              by (cases "ReadNumber (putback c1 s2)")
            have "ReadToken_line c s = Some (Number_t n, s3)"
              using False sk nhash ncmp nalpha nquote True rn
              by (auto simp add: ReadToken_line_def s2_def Let_def)
            moreover have "good s1" "data s1 \<noteq> []" "last (data s1) = CHR 0x0A"
              using r1 nnl by (auto simp: ready_def)
            then have "line_ok s3 \<and> remaining s3 \<le> remaining s1"
              using ReadNumber_props [of s1 c1] True rn s2_eq [OF nnl]
              by simp
            ultimately show ?thesis
              using rem1 by (simp add: structural_def)
          next
            case ndigit: False
            have "ReadToken_line c s = Some (Char_t c1, s2)"
              using False sk nhash ncmp nalpha nquote ndigit
              by (auto simp add: ReadToken_line_def s2_def Let_def)
            then show ?thesis
              using ok2 rem1 rem2 by (simp add: structural_def)
          qed
        qed
      qed
    qed
  qed
qed

subsection \<open>Reading the next line\<close>

lemma getline_good:
  assumes "good i"
  shows "getline i =
    (case dropWhile (\<lambda>c. c \<noteq> CHR 0x0A) (data i) of
       [] \<Rightarrow> if data i = [] then (None, i\<lparr>eofbit := True, failbit := True\<rparr>)
             else (Some (data i), i\<lparr>data := [], eofbit := True\<rparr>)
     | c # cs \<Rightarrow> (Some (takeWhile (\<lambda>c. c \<noteq> CHR 0x0A) (data i)), i\<lparr>data := cs\<rparr>))"
  using assms by (simp add: getline_def)

lemma getline_not_good: "\<not> good i \<Longrightarrow> getline i = (None, i\<lparr>failbit := True\<rparr>)"
  by (simp add: getline_def)

lemma getline_None:
  assumes "getline i = (None, i1)" and "input_inv i"
  shows "eofbit i1 \<and> input_inv i1 \<and> imeasure i1 \<le> imeasure i \<and> (good i \<longrightarrow> imeasure i1 < imeasure i)"
proof (cases "good i")
  case True
  have "i1 = i\<lparr>eofbit := True, failbit := True\<rparr>"
  proof (cases "dropWhile (\<lambda>c. c \<noteq> CHR 0x0A) (data i)")
    case Nil
    with assms(1) show ?thesis
      unfolding getline_good [OF True] by (simp split: if_splits del: dropWhile_eq_Nil_conv)
  next
    case (Cons c cs)
    with assms(1) show ?thesis
      unfolding getline_good [OF True] by simp
  qed
  with True show ?thesis
    by (simp add: input_inv_def imeasure_def good_def)
next
  case False
  with assms(1) have "i1 = i\<lparr>failbit := True\<rparr>"
    by (simp add: getline_not_good)
  with False assms(2) show ?thesis
    by (auto simp: input_inv_def imeasure_def good_def)
qed

lemma getline_Some:
  assumes "getline i = (Some line, i1)" and "input_inv i"
  shows "input_inv i1 \<and> imeasure i1 < imeasure i"
proof -
  have g: "good i"
    using assms(1) getline_not_good [of i] by (cases "good i") simp_all
  have "failbit i1 = failbit i"
  proof (cases "dropWhile (\<lambda>c. c \<noteq> CHR 0x0A) (data i)")
    case Nil
    with assms(1) show ?thesis
      unfolding getline_good [OF g] by (auto split: if_splits simp del: dropWhile_eq_Nil_conv)
  next
    case (Cons c cs)
    with assms(1) show ?thesis
      unfolding getline_good [OF g] by auto
  qed
  with g have "input_inv i1"
    by (simp add: input_inv_def good_def)
  with getline_consumes [OF assms(1)] show ?thesis
    by (simp add: imeasure_def)
qed

lemma ReadNextLine_props:
  "input_inv i \<Longrightarrow> ReadNextLine i ctx = (l, i', ctx') \<Longrightarrow>
     indent ctx' = indent ctx \<and> line_ok l \<and> good l \<and> input_inv i' \<and>
     imeasure i' \<le> imeasure i \<and> (good i \<longrightarrow> imeasure i' < imeasure i) \<and>
     (data l = [] \<longrightarrow> eofbit i')"
proof (induction i ctx arbitrary: l i' ctx' rule: ReadNextLine.induct)
  case (1 input ctx)
  show ?case
  proof (cases "getline input")
    case (Pair x i1)
    show ?thesis
    proof (cases x)
      case None
      with Pair 1(3) have "l = istringstream [] \<and> i' = i1 \<and> ctx' = ctx"
        by (simp add: ReadNextLine.simps [of input ctx])
      with getline_None [OF Pair [unfolded None] 1(2)] show ?thesis
        by (simp add: istringstream_def line_ok_def good_def)
    next
      case (Some line)
      have g: "input_inv i1" "imeasure i1 < imeasure input"
        using getline_Some [OF Pair [unfolded Some] 1(2)] by simp_all
      let ?pos = "length (takeWhile (\<lambda>c. c = CHR '' '') line)"
      show ?thesis
      proof (cases "line \<noteq> [] \<and> ?pos < length line \<and> line ! ?pos \<noteq> CHR ''#''")
        case True
        with Pair Some 1(3) have "l = istringstream (line @ [CHR 0x0A]) \<and> i' = i1 \<and>
            ctx' = ctx\<lparr>new_indent := ?pos div 2\<rparr>"
          by (simp add: ReadNextLine.simps [of input ctx] Let_def)
        with g show ?thesis
          by (simp add: istringstream_def line_ok_def good_def)
      next
        case False
        have eq0: "ReadNextLine input ctx = ReadNextLine i1 ctx"
          using Pair Some False by (subst ReadNextLine.simps [of input ctx]) (auto simp add: Let_def)
        with 1(3) have eq: "ReadNextLine i1 ctx = (l, i', ctx')"
          by simp
        have "indent ctx' = indent ctx \<and> line_ok l \<and> good l \<and> input_inv i' \<and>
           imeasure i' \<le> imeasure i1 \<and> (good i1 \<longrightarrow> imeasure i' < imeasure i1) \<and>
           (data l = [] \<longrightarrow> eofbit i')"
          using "1.IH" [OF Pair [symmetric] Some refl False g(1) eq] .
        with g(2) show ?thesis by simp
      qed
    qed
  qed
qed

subsection \<open>One call of ReadToken\<close>

text \<open>On a lexer state that satisfies the invariant, \<open>ReadToken\<close> returns; the state
  it leaves satisfies the invariant again, the counter \<open>indent\<close> follows the token
  returned, and unless the token is \<open>Eof\<close> the state is smaller in \<open>lex_rel\<close>. The
  call recurses at most once, after reading the next line.\<close>

lemma wf_lex_rel: "wf lex_rel"
  unfolding lex_rel_def by (intro wf_inv_image wf_lex_prod wf_less_than)

lemma ReadToken_direct:
  assumes inv: "lexer_inv lx"
    and direct: "indent (lx_context lx) \<noteq> new_indent (lx_context lx) \<or>
                 fst (get (lx_line lx)) \<noteq> None \<or> eofbit (lx_input lx)"
  shows "\<exists>t lx'. ReadToken lx = Some (t, lx') \<and> lexer_inv lx' \<and> step_ok t lx lx' \<and>
           lx_input lx' = lx_input lx \<and>
           (t \<noteq> Eof \<longrightarrow> (lx', lx) \<in> lex_rel)"
proof -
  let ?i = "indent (lx_context lx)" and ?n = "new_indent (lx_context lx)"
  consider (up) "?i < ?n" | (down) "?n < ?i" | (same) "?i = ?n"
    by linarith
  then show ?thesis
  proof cases
    case up
    let ?lx' = "lx\<lparr>lx_context := (lx_context lx)\<lparr>indent := ?i + 1\<rparr>\<rparr>"
    have "ReadToken lx = Some (Indent, ?lx')"
      using up by (subst ReadToken.simps) simp
    moreover have "lexer_inv ?lx'"
      using inv by (simp add: lexer_inv_def)
    moreover have "step_ok Indent lx ?lx'"
      by (simp add: step_ok_def)
    moreover have "(?lx', lx) \<in> lex_rel"
      using up by (simp add: lex_rel_def fmeasure_def)
    ultimately show ?thesis by simp
  next
    case down
    let ?lx' = "lx\<lparr>lx_context := (lx_context lx)\<lparr>indent := ?i - 1\<rparr>\<rparr>"
    have "ReadToken lx = Some (Dedent, ?lx')"
      using down by (subst ReadToken.simps) simp
    moreover have "lexer_inv ?lx'"
      using inv by (simp add: lexer_inv_def)
    moreover have "step_ok Dedent lx ?lx'"
      using down by (simp add: step_ok_def)
    moreover have "(?lx', lx) \<in> lex_rel"
      using down by (simp add: lex_rel_def fmeasure_def)
    ultimately show ?thesis by simp
  next
    case same
    obtain r line where g: "get (lx_line lx) = (r, line)"
      by (cases "get (lx_line lx)")
    have okl: "line_ok (lx_line lx)"
      using inv by (simp add: lexer_inv_def)
    show ?thesis
    proof (cases r)
      case None
      with direct same g have eof: "eofbit (lx_input lx)"
        by simp
      have ok': "line_ok line"
        using okl g by (rule get_line_ok)
      have rem: "remaining line = 0" "remaining (lx_line lx) = 0"
        using get_None [OF g [unfolded None]] by (simp_all add: remaining_def)
      show ?thesis
      proof (cases "0 < ?i")
        case True
        let ?lx' = "lx\<lparr>lx_line := line, lx_context := \<lparr>indent = ?i - 1, new_indent = 0\<rparr>\<rparr>"
        have "ReadToken lx = Some (Dedent, ?lx')"
          using same g None eof True by (subst ReadToken.simps) simp
        moreover have "lexer_inv ?lx'"
          using inv ok' by (simp add: lexer_inv_def)
        moreover have "step_ok Dedent lx ?lx'"
          using True by (simp add: step_ok_def)
        moreover have "(?lx', lx) \<in> lex_rel"
          using True same rem by (auto simp add: lex_rel_def fmeasure_def)
        ultimately show ?thesis by simp
      next
        case False
        let ?lx' = "lx\<lparr>lx_line := line\<rparr>"
        have "ReadToken lx = Some (Eof, ?lx')"
          using same g None eof False by (subst ReadToken.simps) simp
        moreover have "lexer_inv ?lx'"
          using inv ok' by (simp add: lexer_inv_def)
        moreover have "step_ok Eof lx ?lx'"
          using False by (simp add: step_ok_def)
        ultimately show ?thesis by simp
      qed
    next
      case (Some c)
      have rdy: "ready c line"
        using okl g [unfolded Some] by (rule ready_get)
      from ReadToken_line_props [OF rdy] obtain t line' where
        rt: "ReadToken_line c line = Some (t, line')" and ns: "\<not> structural t" and
        ok': "line_ok line'" and rem': "remaining line' \<le> remaining line"
        by blast
      let ?lx' = "lx\<lparr>lx_line := line'\<rparr>"
      have "ReadToken lx = Some (t, ?lx')"
        using same g Some rt by (subst ReadToken.simps) simp
      moreover have "lexer_inv ?lx'"
        using inv ok' by (simp add: lexer_inv_def)
      moreover have "step_ok t lx ?lx'"
        using ns by (simp add: step_ok_def structural_def)
      moreover have "remaining (lx_line lx) = Suc (remaining line)"
        using g [unfolded Some] by (rule get_remaining)
      then have "(?lx', lx) \<in> lex_rel"
        using rem' by (simp add: lex_rel_def)
      ultimately show ?thesis by simp
    qed
  qed
qed

lemma ReadToken_total:
  assumes inv: "lexer_inv lx"
  shows "\<exists>t lx'. ReadToken lx = Some (t, lx') \<and> lexer_inv lx' \<and> step_ok t lx lx' \<and>
           (t \<noteq> Eof \<longrightarrow> (lx', lx) \<in> lex_rel)"
proof (cases "indent (lx_context lx) \<noteq> new_indent (lx_context lx) \<or>
              fst (get (lx_line lx)) \<noteq> None \<or> eofbit (lx_input lx)")
  case True
  from ReadToken_direct [OF inv True] show ?thesis by blast
next
  case False
  then have same: "indent (lx_context lx) = new_indent (lx_context lx)"
    and neof: "\<not> eofbit (lx_input lx)"
    by simp_all
  obtain line where g: "get (lx_line lx) = (None, line)"
    using False by (cases "get (lx_line lx)") auto
  obtain l i' ctx' where rn: "ReadNextLine (lx_input lx) (lx_context lx) = (l, i', ctx')"
    by (cases "ReadNextLine (lx_input lx) (lx_context lx)")
  have iinv: "input_inv (lx_input lx)"
    using inv by (simp add: lexer_inv_def)
  with neof have gi: "good (lx_input lx)"
    by (auto simp: input_inv_def good_def)
  note p = ReadNextLine_props [OF iinv rn]
  let ?lx1 = "lx\<lparr>lx_input := i', lx_line := l, lx_context := ctx'\<rparr>"
  have unf: "ReadToken lx = ReadToken ?lx1"
    using same g neof rn by (subst ReadToken.simps) simp
  have inv1: "lexer_inv ?lx1"
    using p by (simp add: lexer_inv_def)
  have "data l \<noteq> [] \<Longrightarrow> fst (get l) \<noteq> None"
    using p by (auto simp: get_def split: list.splits)
  then have direct: "indent (lx_context ?lx1) \<noteq> new_indent (lx_context ?lx1) \<or>
                 fst (get (lx_line ?lx1)) \<noteq> None \<or> eofbit (lx_input ?lx1)"
    using p by auto
  from ReadToken_direct [OF inv1 direct] obtain t lx' where
    res: "ReadToken ?lx1 = Some (t, lx')" and inv': "lexer_inv lx'" and
    st: "step_ok t ?lx1 lx'" and inp: "lx_input lx' = i'"
    by auto
  have "step_ok t lx lx'"
    using st p by (simp add: step_ok_def)
  moreover have "(lx', lx) \<in> lex_rel"
    using inp p gi by (simp add: lex_rel_def)
  ultimately show ?thesis
    using unf res inv' by simp
qed

subsection \<open>The token sequence\<close>

lemma prefix_ok_snoc:
  assumes "prefix_ok ts" and "count_list (ts @ [t]) Dedent \<le> count_list (ts @ [t]) Indent"
  shows "prefix_ok (ts @ [t])"
  unfolding prefix_ok_def
proof
  fix k
  show "count_list (take k (ts @ [t])) Dedent \<le> count_list (take k (ts @ [t])) Indent"
  proof (cases "k \<le> length ts")
    case True
    then have "take k (ts @ [t]) = take k ts" by simp
    with assms(1) show ?thesis by (simp add: prefix_ok_def)
  next
    case False
    then have "take k (ts @ [t]) = ts @ [t]" by simp
    with assms(2) show ?thesis by simp
  qed
qed

lemma prefix_ok_single: "t \<noteq> Dedent \<Longrightarrow> prefix_ok [t]"
proof -
  assume "t \<noteq> Dedent"
  then have "count_list ([] @ [t]) Dedent \<le> count_list ([] @ [t]) Indent" by simp
  moreover have "prefix_ok []" by (simp add: prefix_ok_def)
  ultimately have "prefix_ok ([] @ [t])" by (rule prefix_ok_snoc [rotated])
  then show ?thesis by simp
qed

lemma NextToken_step:
  assumes "seq_inv seen lx"
  shows "\<exists>t lx'. NextToken lx = Some (t, lx') \<and> seq_inv (seen @ [CurrentToken lx]) lx' \<and>
           CurrentToken lx' = t \<and> (t \<noteq> Eof \<longrightarrow> (lx', lx) \<in> lex_rel)"
proof -
  let ?S = "seen @ [CurrentToken lx]"
  have inv: "lexer_inv lx" and pre: "prefix_ok ?S" and
    cnt: "count_list ?S Indent = count_list ?S Dedent + indent (lx_context lx)"
    using assms by (simp_all add: seq_inv_def)
  from ReadToken_total [OF inv] obtain t lx1 where
    rt: "ReadToken lx = Some (t, lx1)" and inv1: "lexer_inv lx1" and st: "step_ok t lx lx1" and
    rel: "t \<noteq> Eof \<longrightarrow> (lx1, lx) \<in> lex_rel"
    by blast
  let ?lx' = "lx1\<lparr>lx_current_token := t\<rparr>"
  have nt: "NextToken lx = Some (t, ?lx')"
    using rt by (simp add: NextToken_def)
  have inv': "lexer_inv ?lx'"
    using inv1 by (simp add: lexer_inv_def)
  have cnt': "count_list (?S @ [t]) Indent = count_list (?S @ [t]) Dedent + indent (lx_context ?lx')"
    using cnt st by (auto simp: step_ok_def)
  then have "count_list (?S @ [t]) Dedent \<le> count_list (?S @ [t]) Indent"
    by simp
  with pre have pre': "prefix_ok (?S @ [t])"
    by (rule prefix_ok_snoc)
  have eof': "t = Eof \<longrightarrow> indent (lx_context ?lx') = 0"
    using st by (simp add: step_ok_def)
  have "seq_inv ?S ?lx'"
    using inv' pre' cnt' eof' by (simp add: seq_inv_def CurrentToken_def)
  moreover have "t \<noteq> Eof \<longrightarrow> (?lx', lx) \<in> lex_rel"
    using rel by (simp add: lex_rel_def)
  ultimately show ?thesis
    using nt by (simp add: CurrentToken_def)
qed

lemma advance_at_Eof:
  assumes "seq_inv seen lx" and "CurrentToken lx = Eof"
  shows "\<exists>ts. advance_to_Eof seen lx = Some ts \<and> balanced ts"
proof -
  have "advance_to_Eof seen lx = Some (seen @ [Eof])"
    using assms(2) by (subst advance_to_Eof.simps) simp
  moreover have "balanced (seen @ [Eof])"
    using assms by (simp add: seq_inv_def balanced_def)
  ultimately show ?thesis by simp
qed

lemma advance_to_Eof_balanced:
  "seq_inv seen lx \<Longrightarrow> \<exists>ts. advance_to_Eof seen lx = Some ts \<and> balanced ts"
proof (induction lx arbitrary: seen rule: wf_induct_rule [OF wf_lex_rel])
  case (1 lx)
  show ?case
  proof (cases "CurrentToken lx = Eof")
    case True
    with 1(2) show ?thesis by (rule advance_at_Eof)
  next
    case False
    from NextToken_step [OF 1(2)] obtain t lx' where
      nt: "NextToken lx = Some (t, lx')" and inv': "seq_inv (seen @ [CurrentToken lx]) lx'" and
      cur: "CurrentToken lx' = t" and rel: "t \<noteq> Eof \<longrightarrow> (lx', lx) \<in> lex_rel"
      by blast
    have unf: "advance_to_Eof seen lx = advance_to_Eof (seen @ [CurrentToken lx]) lx'"
      using False nt by (subst advance_to_Eof.simps) simp
    show ?thesis
    proof (cases "t = Eof")
      case True
      with inv' cur unf show ?thesis
        using advance_at_Eof [of "seen @ [CurrentToken lx]" lx'] by simp
    next
      case False
      with rel have "(lx', lx) \<in> lex_rel" by simp
      from "1.IH" [OF this inv'] unf show ?thesis by simp
    qed
  qed
qed

lemma Lexer_new_props:
  "\<exists>lx. Lexer_new (istringstream program) = Some lx \<and> seq_inv [] lx"
proof -
  let ?c0 = "\<lparr>indent = 0, new_indent = 0\<rparr>"
  obtain l i' ctx where rn: "ReadNextLine (istringstream program) ?c0 = (l, i', ctx)"
    by (cases "ReadNextLine (istringstream program) ?c0")
  have "input_inv (istringstream program)"
    by (simp add: input_inv_def istringstream_def)
  note p = ReadNextLine_props [OF this rn]
  let ?lx0 = "\<lparr>lx_input = i', lx_line = l, lx_context = ctx, lx_current_token = Eof\<rparr>"
  have inv0: "lexer_inv ?lx0"
    using p by (simp add: lexer_inv_def)
  have ind0: "indent (lx_context ?lx0) = 0"
    using p by simp
  from ReadToken_total [OF inv0] obtain t lx1 where
    rt: "ReadToken ?lx0 = Some (t, lx1)" and inv1: "lexer_inv lx1" and st: "step_ok t ?lx0 lx1"
    by blast
  let ?lx = "lx1\<lparr>lx_current_token := t\<rparr>"
  have "Lexer_new (istringstream program) = Some ?lx"
    using rn rt by (simp add: Lexer_new_def NextToken_def)
  moreover have nd: "t \<noteq> Dedent"
    using st ind0 by (auto simp: step_ok_def)
  then have "prefix_ok ([] @ [CurrentToken ?lx])"
    by (simp add: prefix_ok_single CurrentToken_def)
  moreover have "count_list [t] Indent = count_list [t] Dedent + indent (lx_context ?lx)"
    using st ind0 nd by (auto simp: step_ok_def)
  moreover have "t = Eof \<longrightarrow> indent (lx_context ?lx) = 0"
    using st ind0 by (simp add: step_ok_def)
  moreover have "lexer_inv ?lx"
    using inv1 by (simp add: lexer_inv_def)
  ultimately show ?thesis
    by (simp add: seq_inv_def CurrentToken_def)
qed

text \<open>
  Claim C1. For every program text, constructing the lexer and calling \<open>NextToken\<close>
  until \<open>Eof\<close> returns: the token sequence exists (every call returns), it ends with
  \<open>Eof\<close>, it holds as many \<open>Indent\<close> as \<open>Dedent\<close> tokens, and in each of its
  prefixes the \<open>Dedent\<close> tokens never outnumber the \<open>Indent\<close> tokens.
\<close>

theorem indent_dedent_balanced:
  "\<exists>ts. token_sequence program = Some ts \<and> last ts = Eof \<and>
     count_list ts Indent = count_list ts Dedent \<and>
     (\<forall>k. count_list (take k ts) Dedent \<le> count_list (take k ts) Indent)"
proof -
  from Lexer_new_props obtain lx where
    new: "Lexer_new (istringstream program) = Some lx" and inv: "seq_inv [] lx"
    by blast
  from advance_to_Eof_balanced [OF inv] obtain ts where
    "advance_to_Eof [] lx = Some ts" and "balanced ts"
    by blast
  with new show ?thesis
    by (simp add: token_sequence_def balanced_def prefix_ok_def)
qed

subsection \<open>String literals\<close>


















text \<open>
  Claim C7. The six escapes are replaced by their characters, but an escape with any
  other character is not kept literally: the \<open>switch\<close> of \<open>ReadString\<close> has no default
  label, so the backslash and the character after it are both dropped. The literal
  \<open>'a\xb'\<close> yields the payload \<open>ab\<close>.
\<close>

theorem unknown_escape_dropped:
  "token_sequence [CHR 0x27, CHR ''a'', CHR 0x5C, CHR ''x'', CHR ''b'', CHR 0x27] =
     Some [String_t [CHR ''a'', CHR ''b''], Newline, Eof]"
  by code_simp

section \<open>Properties of the runtime and the statements\<close>

lemma Execute_Suc:
  "Execute (Suc n) statement s = Execute_node (Execute n) (Object_Print n) statement s"
  by (simp add: Execute_def Object_Print_def)


lemma bind_Normal: "bind (Normal x s) f = f x s"
  by (simp add: bind_def)

lemma bind_Failure: "bind (Failure e) f = Failure e"
  by (simp add: bind_def)

lemma bind_ReturnException: "bind (ReturnException v s) f = ReturnException v s"
  by (simp add: bind_def)

text \<open>
  Claim C4. Truthiness: the empty holder is false; a number is true exactly when it is
  not zero; a boolean is its own value; a string is true exactly when it is not empty;
  a class instance and a class are false.
\<close>

theorem IsTrue_by_kind:
  "IsTrue None_v = False \<and>
   IsTrue (Number number) = (number \<noteq> 0) \<and>
   IsTrue (Bool boolean) = boolean \<and>
   IsTrue (String str) = (str \<noteq> []) \<and>
   IsTrue (Instance r) = False \<and>
   IsTrue (ClassObject c) = False"
  by (simp add: IsTrue_def TryAs_Number_def TryAs_Bool_def TryAs_String_def)

text \<open>
  Claim C2. When both operands of a division evaluate to numbers, \<open>Div::Execute\<close>
  returns the quotient truncated toward zero (the sign of the dividend, the magnitude
  the integer quotient of the magnitudes) if the divisor is positive, and fails with
  the runtime error "Division by zero" if the divisor is zero or negative.
\<close>

theorem Div_Execute_numbers:
  assumes "Execute n lhs s = Normal (Number a) s1"
    and "Execute n rhs s1 = Normal (Number b) s2"
  shows "Execute (Suc n) (Div lhs rhs) s =
           (if 0 < b then Normal (Number (sgn a * (\<bar>a\<bar> div b))) s2
            else Failure (runtime_error ''Division by zero''))"
  using assms
  by (simp add: Execute_Suc bind_Normal TryAs_Number_def int_div_def)

lemma example_lookup:
  "Execute (Suc 0) (VariableValue [''x'']) example_state = Normal (Number (- 7)) example_state"
  "Execute (Suc 0) (VariableValue [''y'']) example_state = Normal (Number 2) example_state"
  "Execute (Suc 0) (VariableValue [''z'']) example_state = Normal (Number 0) example_state"
  by (simp_all add: Execute_Suc example_state_def)

theorem Div_Execute_numbers_witness:
  "Execute (Suc 0) (VariableValue [''x'']) example_state = Normal (Number (- 7)) example_state \<and>
   Execute (Suc 0) (VariableValue [''y'']) example_state = Normal (Number 2) example_state \<and>
   Execute (Suc (Suc 0)) (Div (VariableValue [''x'']) (VariableValue [''y''])) example_state =
     Normal (Number (- 3)) example_state \<and>
   Execute (Suc 0) (VariableValue [''z'']) example_state = Normal (Number 0) example_state \<and>
   Execute (Suc (Suc 0)) (Div (VariableValue [''x'']) (VariableValue [''z''])) example_state =
     Failure (runtime_error ''Division by zero'')"
  using Div_Execute_numbers [OF example_lookup(1) example_lookup(2)]
    Div_Execute_numbers [OF example_lookup(1) example_lookup(3)]
    example_lookup
  by simp



lemma find_append_first:
  "find P (xs @ ys) = (case find P xs of Some x \<Rightarrow> Some x | None \<Rightarrow> find P ys)"
  by (induction xs) simp_all

lemma GetMethod_chain:
  "GetMethod c n = find (\<lambda>method. method_name method = n) (chain_methods c)"
proof (induction c n rule: GetMethod.induct)
  case (1 name methods parent n)
  then show ?case
    by (cases parent) (simp_all add: find_append_first split: option.splits)
qed

text \<open>
  Claim C3, amended. \<open>ClassInstance::Call\<close> looks the method up by name alone: the
  first method with that name among the methods of the class of the instance in
  declaration order, then among those of its ancestors. If there is none, or if the
  one found has a parameter count other than the number of arguments, the call fails
  with the runtime error "Method ... has not found", also when a later method of
  the chain has the name and the right parameter count. Otherwise the body of the
  method found is executed in a new closure that binds \<open>self\<close> and the parameters.
\<close>

theorem Call_dispatch:
  "Call exec r method actual_args s =
     (case find (\<lambda>m. method_name m = method) (chain_methods (cls (heap s r))) of
        Some m \<Rightarrow>
          if length (formal_params m) = length actual_args
          then leave (closure s)
                 (exec (method_body m)
                    (s\<lparr>closure := method_closure r (formal_params m) actual_args\<rparr>))
          else Failure (runtime_error (''Method '' @ method @ '' has not found''))
      | None \<Rightarrow> Failure (runtime_error (''Method '' @ method @ '' has not found'')))"
  by (simp add: Call_def HasMethod_def GetMethod_chain split: option.splits)

text \<open>The claim as stated fails: class \<open>B\<close> inherits an \<open>f\<close> without parameters from
  \<open>A\<close>, and calling \<open>f\<close> without arguments on an instance of \<open>B\<close> fails, because
  the lookup stops at the \<open>f\<close> of \<open>B\<close>, which has one parameter.\<close>

theorem Call_shadowed_counterexample:
  "list_ex (\<lambda>m. method_name m = ''f'' \<and> length (formal_params m) = 0) (chain_methods example_B) \<and>
   Call (Execute 3) 0 ''f'' [] example_state = Failure (runtime_error ''Method f has not found'')"
  by (simp add: example_B_def example_A_def example_state_def Call_def HasMethod_def)

lemma HasMethod_lookup: "HasMethod c name k = lookup_has_arity c name k"
  by (simp add: HasMethod_def lookup_has_arity_def GetMethod_chain)

text \<open>The claim as stated fails: class \<open>D\<close> inherits an \<open>__init__\<close> with one parameter
  from \<open>C\<close>, so its chain defines an \<open>__init__\<close> for one argument; yet creating a \<open>D\<close>
  with one argument neither evaluates the argument (\<open>w\<close> stays unbound) nor runs an
  \<open>__init__\<close>, because the lookup stops at the \<open>__init__\<close> of \<open>D\<close>, which has none.\<close>

theorem NewInstance_shadowed_counterexample:
  "chain_defines example_D ''__init__'' (length [Assignment ''w'' (VariableValue [''x''])]) \<and>
   closure example_state ''w'' = None \<and>
   Execute 4 (NewInstance example_D [Assignment ''w'' (VariableValue [''x''])]) example_state =
     Normal (Instance 2)
       (example_state
          \<lparr>heap := (heap example_state)(2 := \<lparr>cls = example_D, Fields = Map.empty\<rparr>),
           next_address := 3\<rparr>)"
  by (simp add: chain_defines_def example_D_def example_C_def example_state_def
      eval_nat_numeral Execute_Suc HasMethod_def Own_ClassInstance_def Let_def)

text \<open>
  Claim C9, amended. \<open>NewInstance::Execute\<close> constructs an instance of the class with
  no fields at the next address, which no instance has yet, and advances that
  address. Lookup by name decides what follows: the first \<open>__init__\<close> among the methods
  of the class in declaration order, then among those of its ancestors. If there is
  none, or if the one found has a parameter count other than the number of argument
  expressions (also when a later \<open>__init__\<close> of the chain has that count), the new
  instance is returned at once: no argument is evaluated, nothing else changes and no
  error is raised. If the one found has that parameter count, the arguments are
  evaluated in the state with the new instance, \<open>__init__\<close> is called on the new
  instance with their values, and the instance is returned when the call returns.
\<close>

theorem NewInstance_Execute:
  "(\<not> lookup_has_arity c ''__init__'' (length args) \<longrightarrow>
      Execute (Suc n) (NewInstance c args) s =
        Normal (Instance (next_address s))
          (s\<lparr>heap := (heap s)(next_address s := \<lparr>cls = c, Fields = Map.empty\<rparr>),
             next_address := Suc (next_address s)\<rparr>)) \<and>
   (lookup_has_arity c ''__init__'' (length args) \<and>
    ExecuteAll (Execute n) args
      (s\<lparr>heap := (heap s)(next_address s := \<lparr>cls = c, Fields = Map.empty\<rparr>),
         next_address := Suc (next_address s)\<rparr>) = Normal params s1 \<and>
    Call (Execute n) (next_address s) ''__init__'' params s1 = Normal result s2 \<longrightarrow>
      Execute (Suc n) (NewInstance c args) s = Normal (Instance (next_address s)) s2)"
  by (simp add: Execute_Suc Let_def bind_Normal HasMethod_lookup Own_ClassInstance_def)

lemma example_no_init:
  "\<not> lookup_has_arity example_A ''__init__'' (length [VariableValue [''nowhere'']])"
  by (simp add: lookup_has_arity_def example_A_def)

lemma example_init:
  "lookup_has_arity example_C ''__init__'' (length [VariableValue [''x'']])"
  by (simp add: lookup_has_arity_def example_C_def)

lemma example_init_args:
  "ExecuteAll (Execute 3) [VariableValue [''x'']] (example_allocated example_C) =
     Normal [Number (- 7)] (example_allocated example_C)"
  by (simp add: eval_nat_numeral Execute_Suc bind_Normal example_allocated_def example_state_def)

lemma example_init_call:
  "Call (Execute 3) 2 ''__init__'' [Number (- 7)] (example_allocated example_C) =
     Normal None_v example_initialised"
  by (simp add: Call_def HasMethod_def eval_nat_numeral Execute_Suc bind_Normal leave_def
      method_closure_def TryAs_ClassInstance_def set_field_def example_allocated_def
      example_initialised_def example_state_def example_C_def)

theorem NewInstance_Execute_witness:
  "\<not> lookup_has_arity example_A ''__init__'' (length [VariableValue [''nowhere'']]) \<and>
   Execute 1 (NewInstance example_A [VariableValue [''nowhere'']]) example_state =
     Normal (Instance 2) (example_allocated example_A) \<and>
   lookup_has_arity example_C ''__init__'' (length [VariableValue [''x'']]) \<and>
   ExecuteAll (Execute 3) [VariableValue [''x'']] (example_allocated example_C) =
     Normal [Number (- 7)] (example_allocated example_C) \<and>
   Call (Execute 3) 2 ''__init__'' [Number (- 7)] (example_allocated example_C) =
     Normal None_v example_initialised \<and>
   Execute 4 (NewInstance example_C [VariableValue [''x'']]) example_state =
     Normal (Instance 2) example_initialised"
proof -
  have na: "next_address example_state = 2"
    by (simp add: example_state_def)
  have "Execute (Suc 0) (NewInstance example_A [VariableValue [''nowhere'']]) example_state =
      Normal (Instance 2) (example_allocated example_A)"
    using NewInstance_Execute [of example_A "[VariableValue [''nowhere'']]" 0 example_state]
      example_no_init na
    by (simp add: example_allocated_def)
  moreover have "Execute (Suc 3) (NewInstance example_C [VariableValue [''x'']]) example_state =
      Normal (Instance 2) example_initialised"
    using NewInstance_Execute [of example_C "[VariableValue [''x'']]" 3 example_state
        "[Number (- 7)]" "example_allocated example_C" None_v example_initialised]
      example_init example_init_args example_init_call na
    by (simp add: example_allocated_def)
  ultimately show ?thesis
    using example_no_init example_init example_init_args example_init_call
    by (simp add: eval_nat_numeral)
qed









text \<open>The order the claim states differs from the code: with a receiver that binds
  \<open>o\<close> and an argument that reads \<open>o\<close>, receiver-first evaluation returns the new
  instance, while \<open>MethodCall::Execute\<close> fails on the argument, which it evaluates
  before the receiver has run.\<close>

theorem MethodCall_receiver_first_counterexample:
  "Execute 5 (MethodCall (Assignment ''o'' (NewInstance example_B [])) ''f'' [VariableValue [''o'']])
     example_state = Failure (runtime_error ''Name o is not defined'') \<and>
   returned (MethodCall_receiver_first (Execute 4)
     (Assignment ''o'' (NewInstance example_B [])) ''f'' [VariableValue [''o'']] example_state) =
     Some (Instance 2)"
  by (simp add: eval_nat_numeral Execute_Suc MethodCall_receiver_first_def bind_Normal
      bind_Failure bind_ReturnException Call_def HasMethod_def leave_def method_closure_def
      TryAs_ClassInstance_def Own_ClassInstance_def Let_def example_state_def example_B_def
      example_A_def)

lemma ExecuteAll_append:
  "ExecuteAll exec (before @ after) s =
     bind (ExecuteAll exec before s)
       (\<lambda>vs s1. bind (ExecuteAll exec after s1) (\<lambda>ws s2. Normal (vs @ ws) s2))"
proof (induction before arbitrary: s)
  case Nil
  show ?case
    by (cases "ExecuteAll exec after s") (simp_all add: bind_def)
next
  case (Cons statement before)
  show ?case
  proof (cases "exec statement s")
    case (Normal v s1)
    show ?thesis
      by (cases "ExecuteAll exec before s1")
        (simp_all add: Normal Cons.IH bind_def split: outcome.splits)
  qed (simp_all add: bind_def)
qed

text \<open>
  Claim C8, amended. \<open>MethodCall::Execute\<close> first evaluates the argument expressions
  from left to right (the later ones in the state the earlier ones leave), then the
  receiver, in the state the arguments leave, and then calls the method on the
  instance the receiver evaluates to, with the argument values. If an argument fails,
  the receiver is not evaluated.
\<close>

theorem MethodCall_arguments_first:
  "(ExecuteAll (Execute n) args s = Normal arguments s1 \<and>
    Execute n object s1 = Normal (Instance r) s2 \<longrightarrow>
      Execute (Suc n) (MethodCall object method args) s =
        Call (Execute n) r method arguments s2) \<and>
   (ExecuteAll (Execute n) args s = Failure e \<longrightarrow>
      Execute (Suc n) (MethodCall object method args) s = Failure e) \<and>
   ExecuteAll (Execute n) (before @ after) s =
     bind (ExecuteAll (Execute n) before s)
       (\<lambda>vs s'. bind (ExecuteAll (Execute n) after s') (\<lambda>ws s''. Normal (vs @ ws) s''))"
  by (simp add: Execute_Suc bind_Normal bind_Failure TryAs_ClassInstance_def ExecuteAll_append)

lemma example_arguments:
  "ExecuteAll (Execute 3) [Assignment ''o'' (NewInstance example_B [])] example_state =
     Normal [Instance 2] example_bound"
  by (simp add: eval_nat_numeral Execute_Suc bind_Normal HasMethod_def Let_def
      Own_ClassInstance_def example_bound_def example_state_def example_B_def example_A_def)

lemma example_receiver:
  "Execute 3 (VariableValue [''o'']) example_bound = Normal (Instance 2) example_bound"
  by (simp add: eval_nat_numeral Execute_Suc example_bound_def)

lemma example_call:
  "Call (Execute 3) 2 ''f'' [Instance 2] example_bound = Normal (Instance 2) example_bound"
  by (simp add: Call_def HasMethod_def eval_nat_numeral Execute_Suc bind_Normal
      bind_ReturnException leave_def method_closure_def Own_ClassInstance_def example_bound_def
      example_state_def example_B_def example_A_def)

lemma example_failing_argument:
  "ExecuteAll (Execute 3) [VariableValue [''nowhere'']] example_state =
     Failure (runtime_error ''Name nowhere is not defined'')"
  by (simp add: eval_nat_numeral Execute_Suc bind_Failure example_state_def)

theorem MethodCall_arguments_first_witness:
  "ExecuteAll (Execute 3) [Assignment ''o'' (NewInstance example_B [])] example_state =
     Normal [Instance 2] example_bound \<and>
   Execute 3 (VariableValue [''o'']) example_bound = Normal (Instance 2) example_bound \<and>
   Execute 4 (MethodCall (VariableValue [''o'']) ''f'' [Assignment ''o'' (NewInstance example_B [])])
     example_state = Normal (Instance 2) example_bound \<and>
   ExecuteAll (Execute 3) [VariableValue [''nowhere'']] example_state =
     Failure (runtime_error ''Name nowhere is not defined'') \<and>
   Execute 4 (MethodCall (VariableValue [''o'']) ''f'' [VariableValue [''nowhere'']]) example_state =
     Failure (runtime_error ''Name nowhere is not defined'')"
proof -
  have "Execute (Suc 3) (MethodCall (VariableValue [''o'']) ''f''
            [Assignment ''o'' (NewInstance example_B [])]) example_state =
          Call (Execute 3) 2 ''f'' [Instance 2] example_bound"
    using MethodCall_arguments_first [of 3 "[Assignment ''o'' (NewInstance example_B [])]"
        example_state "[Instance 2]" example_bound "VariableValue [''o'']" 2 example_bound]
      example_arguments example_receiver
    by simp
  moreover have "Execute (Suc 3) (MethodCall (VariableValue [''o'']) ''f''
            [VariableValue [''nowhere'']]) example_state =
          Failure (runtime_error ''Name nowhere is not defined'')"
    using MethodCall_arguments_first [of 3 "[VariableValue [''nowhere'']]" example_state]
      example_failing_argument
    by simp
  ultimately show ?thesis
    using example_arguments example_receiver example_call example_failing_argument
    by (simp add: eval_nat_numeral)
qed

end
